theory Spec2Isabelle
  imports Main "HOL-Library.Word"
begin

section \<open>JavaScript values shared by the models of send-message.mjs\<close>

text \<open>A thrown JavaScript \<^verbatim>\<open>Error\<close>, with its message.\<close>

datatype js_error = Error string

text \<open>
  \<^verbatim>\<open>BigInt.prototype.toString()\<close> and the template-literal rendering of a length:
  the decimal digits, most significant first, with a leading minus sign for a negative
  BigInt. BigInt values are unbounded, so they are modelled as \<open>int\<close>.
\<close>

definition digit_char :: "nat \<Rightarrow> char" where
  "digit_char d = ''0123456789'' ! d"

function nat_toString :: "nat \<Rightarrow> string" where
  "nat_toString n =
     (if n < 10 then [digit_char n]
      else nat_toString (n div 10) @ [digit_char (n mod 10)])"
  by pat_completeness auto
termination
  by (relation "measure id") auto

declare nat_toString.simps [simp del]

definition bigint_toString :: "int \<Rightarrow> string" where
  "bigint_toString i =
     (if i < 0 then CHR ''-'' # nat_toString (nat (- i)) else nat_toString (nat i))"

text \<open>
  A JavaScript string is a sequence of UTF-16 code units, and \<^verbatim>\<open>length\<close>,
  \<^verbatim>\<open>startsWith\<close> and \<^verbatim>\<open>substring\<close> count code units. \<open>js_str\<close> reads an
  ASCII literal of the source as such a sequence. The elements of a
  \<^verbatim>\<open>Uint8Array\<close> are bytes.
\<close>

type_synonym code_unit = "16 word"
type_synonym js_string = "code_unit list"
type_synonym byte = "8 word"

definition js_str :: "string \<Rightarrow> js_string" where
  "js_str s = map of_char s"

text \<open>\<^verbatim>\<open>s.startsWith(searchString)\<close>, from position 0.\<close>

definition startsWith :: "js_string \<Rightarrow> js_string \<Rightarrow> bool" where
  "startsWith s searchString = (take (length searchString) s = searchString)"

text \<open>
  \<^verbatim>\<open>s.substring(start, end)\<close> clamps both indices to the length and swaps them when
  \<open>start\<close> is the larger; \<^verbatim>\<open>s.substring(start)\<close> runs to the end of the string.
\<close>

definition substring :: "js_string \<Rightarrow> nat \<Rightarrow> nat \<Rightarrow> js_string" where
  "substring s start end =
     (let a = min start (length s); b = min end (length s)
      in take (max a b - min a b) (drop (min a b) s))"

definition substring_from :: "js_string \<Rightarrow> nat \<Rightarrow> js_string" where
  "substring_from s start = drop (min start (length s)) s"

text \<open>
  \<^verbatim>\<open>parseInt(string, 16)\<close> as ECMAScript defines it: leading white space and line
  terminators are skipped, one sign is read, a \<^verbatim>\<open>0x\<close> or \<^verbatim>\<open>0X\<close> prefix is
  skipped, and the longest run of hexadecimal digits that follows is the value; with no
  digit the result is \<^verbatim>\<open>NaN\<close>, here \<open>None\<close>. The value is exact for the strings
  of at most two code units that the source passes.
\<close>

definition is_js_whitespace :: "code_unit \<Rightarrow> bool" where
  "is_js_whitespace c \<longleftrightarrow>
     c \<in> set [0x9, 0xA, 0xB, 0xC, 0xD, 0x20, 0xA0, 0x1680,
              0x2000, 0x2001, 0x2002, 0x2003, 0x2004, 0x2005, 0x2006, 0x2007, 0x2008,
              0x2009, 0x200A, 0x2028, 0x2029, 0x202F, 0x205F, 0x3000, 0xFEFF]"

definition hex_digit_val :: "code_unit \<Rightarrow> nat option" where
  "hex_digit_val c =
     (if 0x30 \<le> c \<and> c \<le> 0x39 then Some (unat c - 0x30)
      else if 0x61 \<le> c \<and> c \<le> 0x66 then Some (unat c - 0x61 + 10)
      else if 0x41 \<le> c \<and> c \<le> 0x46 then Some (unat c - 0x41 + 10)
      else None)"

definition parseInt16 :: "js_string \<Rightarrow> int option" where
  "parseInt16 string =
     (let S = dropWhile is_js_whitespace string;
          sign = (if S \<noteq> [] \<and> hd S = 0x2D then - 1 else 1 :: int);
          S1 = (if S \<noteq> [] \<and> (hd S = 0x2B \<or> hd S = 0x2D) then tl S else S);
          S2 = (if take 2 S1 = js_str ''0x'' \<or> take 2 S1 = js_str ''0X'' then drop 2 S1 else S1);
          Z = takeWhile (\<lambda>c. hex_digit_val c \<noteq> None) S2
      in if Z = [] then None
         else Some (sign * int (foldl (\<lambda>n c. 16 * n + the (hex_digit_val c)) 0 Z)))"

text \<open>
  Storing a Number into a \<^verbatim>\<open>Uint8Array\<close> element converts it with ToUint8:
  \<^verbatim>\<open>NaN\<close> becomes 0 and an integer is reduced modulo 256.
\<close>

definition toUint8 :: "int option \<Rightarrow> byte" where
  "toUint8 v = (case v of None \<Rightarrow> 0 | Some n \<Rightarrow> word_of_int n)"

section \<open>The nonce counters of send-message.mjs\<close>

text \<open>
  \<^verbatim>\<open>let currentTokenNonce = 67n; let currentWalletNonce = 100042n;\<close> are module
  variables; \<^verbatim>\<open>nonce.json\<close> holds the object
  \<^verbatim>\<open>{ token_nonce: tokenNonce.toString(), wallet_nonce: walletNonce.toString() }\<close>.
  The state of the model is the two variables and the content of the file
  (\<open>None\<close> while the file does not exist).
\<close>

record nonceData =
  token_nonce :: string
  wallet_nonce :: string

record nonce_state =
  currentTokenNonce :: int
  currentWalletNonce :: int
  nonce_json :: "nonceData option"

text \<open>
  \<^verbatim>\<open>writeFileSync\<close> either writes the file or throws; which of the two happens is
  decided by the file system, so it is an input of the model.
\<close>

datatype write_result = Written | WriteThrows js_error

text \<open>
  \<^verbatim>\<open>
  function saveNoncesToFile(tokenNonce, walletNonce) {
    try {
      const nonceData = { token_nonce: tokenNonce.toString(), wallet_nonce: walletNonce.toString() };
      writeFileSync(NONCE_FILE_PATH, JSON.stringify(nonceData, null, 2));
      console.log(...);
    } catch (error) { console.error(...); throw error; }
  }
  \<close>
  The \<^verbatim>\<open>catch\<close> block logs and rethrows, so a failed write is an error result.
\<close>

definition saveNoncesToFile ::
  "write_result \<Rightarrow> int \<Rightarrow> int \<Rightarrow> nonce_state \<Rightarrow> js_error + nonce_state" where
  "saveNoncesToFile w tokenNonce walletNonce s =
     (let nonceData = \<lparr>token_nonce = bigint_toString tokenNonce,
                         wallet_nonce = bigint_toString walletNonce\<rparr>
      in case w of
           Written \<Rightarrow> Inr (s\<lparr>nonce_json := Some nonceData\<rparr>)
         | WriteThrows e \<Rightarrow> Inl e)"

text \<open>
  \<^verbatim>\<open>
  function getNextTokenNonce() {
    currentTokenNonce = currentTokenNonce + 1n;
    saveNoncesToFile(currentTokenNonce, currentWalletNonce);
    return currentTokenNonce;
  }
  \<close>
  The assignment happens before the write, so the incremented variable survives a
  write that throws: the model returns the state next to the outcome in both cases.
\<close>

definition getNextTokenNonce ::
  "write_result \<Rightarrow> nonce_state \<Rightarrow> (js_error + int) \<times> nonce_state" where
  "getNextTokenNonce w s =
     (let s1 = s\<lparr>currentTokenNonce := currentTokenNonce s + 1\<rparr>
      in case saveNoncesToFile w (currentTokenNonce s1) (currentWalletNonce s1) s1 of
           Inl e \<Rightarrow> (Inl e, s1)
         | Inr s2 \<Rightarrow> (Inr (currentTokenNonce s2), s2))"

text \<open>
  \<^verbatim>\<open>
  function getNextWalletNonce() {
    currentWalletNonce = currentWalletNonce + 1n;
    saveNoncesToFile(currentTokenNonce, currentWalletNonce);
    return currentWalletNonce;
  }
  \<close>
\<close>

definition getNextWalletNonce ::
  "write_result \<Rightarrow> nonce_state \<Rightarrow> (js_error + int) \<times> nonce_state" where
  "getNextWalletNonce w s =
     (let s1 = s\<lparr>currentWalletNonce := currentWalletNonce s + 1\<rparr>
      in case saveNoncesToFile w (currentTokenNonce s1) (currentWalletNonce s1) s1 of
           Inl e \<Rightarrow> (Inl e, s1)
         | Inr s2 \<Rightarrow> (Inr (currentWalletNonce s2), s2))"

text \<open>
  A sequence of calls to the two operations, in any interleaving, each with the outcome
  of its write; the run lists what every call returned or threw.
\<close>

datatype nonce_call = NextToken | NextWallet

fun call_nonce ::
  "nonce_call \<Rightarrow> write_result \<Rightarrow> nonce_state \<Rightarrow> (js_error + int) \<times> nonce_state" where
  "call_nonce NextToken w s = getNextTokenNonce w s"
| "call_nonce NextWallet w s = getNextWalletNonce w s"

fun run_calls ::
  "(nonce_call \<times> write_result) list \<Rightarrow> nonce_state \<Rightarrow> (nonce_call \<times> (js_error + int)) list" where
  "run_calls [] s = []"
| "run_calls ((c, w) # cs) s =
     (c, fst (call_nonce c w s)) # run_calls cs (snd (call_nonce c w s))"

fun returned :: "nonce_call \<Rightarrow> (nonce_call \<times> (js_error + int)) list \<Rightarrow> int list" where
  "returned c [] = []"
| "returned c ((c', Inr v) # rs) = (if c' = c then v # returned c rs else returned c rs)"
| "returned c ((c', Inl e) # rs) = returned c rs"

fun counter_of :: "nonce_call \<Rightarrow> nonce_state \<Rightarrow> int" where
  "counter_of NextToken s = currentTokenNonce s"
| "counter_of NextWallet s = currentWalletNonce s"

section \<open>hexAddressToUint8Array of send-message.mjs\<close>

text \<open>
  \<^verbatim>\<open>
  function hexAddressToUint8Array(hexAddress) {
    if (hexAddress.startsWith('0x')) { hexAddress = hexAddress.substring(2); }
    if (hexAddress.length !== 40) {
      throw new Error(`Invalid address length: ${hexAddress.length} chars, expected 40`);
    }
    const addressBytes = new Uint8Array(31);
    addressBytes.fill(0);
    for (let i = 0; i < 20; i++) {
      const byteHex = hexAddress.substring(i*2, i*2+2);
      addressBytes[i] = parseInt(byteHex, 16);
    }
    return addressBytes;
  }
  \<close>
  \<open>strip_0x\<close> is the first statement; the loop is a fold over the indices 0 to 19.
\<close>

definition strip_0x :: "js_string \<Rightarrow> js_string" where
  "strip_0x hexAddress =
     (if startsWith hexAddress (js_str ''0x'') then substring_from hexAddress 2 else hexAddress)"

definition hexAddressToUint8Array :: "js_string \<Rightarrow> js_error + byte list" where
  "hexAddressToUint8Array hexAddress0 =
     (let hexAddress = strip_0x hexAddress0
      in if length hexAddress \<noteq> 40
         then Inl (Error (''Invalid address length: '' @ nat_toString (length hexAddress)
                           @ '' chars, expected 40''))
         else Inr (foldl (\<lambda>addressBytes i.
                      addressBytes[i := toUint8 (parseInt16 (substring hexAddress (i * 2) (i * 2 + 2)))])
                    (replicate 31 0) [0..<20]))"

section \<open>createMessageArrays of send-message.mjs\<close>

text \<open>
  A \<^verbatim>\<open>Uint8Array\<close> is a view of an \<^verbatim>\<open>ArrayBuffer\<close>: it has a buffer, a byte
  offset into that buffer and a length, and several arrays may view one buffer, with
  ranges that overlap or not. \<open>createMessageArrays\<close> stores into the arrays it is
  given, so the buffers live in a heap, the list of all buffers, and an array is the
  index of its buffer, its offset and its length. Element \<open>i\<close> of an array is byte
  \<open>byteOffset + i\<close> of its buffer. A store at an index that is not below the length of
  the array is ignored. \<^verbatim>\<open>new Uint8Array(n)\<close> allocates a buffer of \<open>n\<close> zero bytes
  and returns the array that views all of it; \<^verbatim>\<open>fill(v)\<close> stores \<open>v\<close> into every
  element.
\<close>

type_synonym heap = "byte list list"

record uint8array =
  buffer :: nat
  byteOffset :: nat
  array_length :: nat

definition elements :: "heap \<Rightarrow> uint8array \<Rightarrow> byte list" where
  "elements h a = take (array_length a) (drop (byteOffset a) (h ! buffer a))"

definition set_index :: "uint8array \<Rightarrow> nat \<Rightarrow> byte \<Rightarrow> heap \<Rightarrow> heap" where
  "set_index a i v h =
     (if i < array_length a
      then h[buffer a := (h ! buffer a)[byteOffset a + i := v]]
      else h)"

definition new_Uint8Array :: "nat \<Rightarrow> heap \<Rightarrow> uint8array \<times> heap" where
  "new_Uint8Array n h =
     (\<lparr>buffer = length h, byteOffset = 0, array_length = n\<rparr>, h @ [replicate n 0])"

definition fill :: "uint8array \<Rightarrow> byte \<Rightarrow> heap \<Rightarrow> heap" where
  "fill a v h = foldl (\<lambda>h' i. set_index a i v h') h [0..<array_length a]"

text \<open>
  An array of the heap: its buffer exists and its range lies within the buffer, as the
  constructors of JavaScript ensure.
\<close>

definition valid_array :: "heap \<Rightarrow> uint8array \<Rightarrow> bool" where
  "valid_array h a \<longleftrightarrow>
     buffer a < length h \<and> byteOffset a + array_length a \<le> length (h ! buffer a)"

text \<open>
  \<^verbatim>\<open>
  function createMessageArrays(donationAddress, arbChainId, verificationData) {
    const msgArrays = [donationAddress, arbChainId];
    for (let i = 0; i < 5; i++) {
      const arr = new Uint8Array(31);
      arr.fill(0);
      msgArrays.push(arr);
    }
    for (let i = 0; i < msgArrays.length; i++) {
      msgArrays[i][30] = i + 1;
    }
    return msgArrays;
  }
  \<close>
  \<open>push_zero_array\<close> is the body of the first loop. The result is the list of arrays
  \<open>msgArrays\<close> and the heap after both loops.
\<close>

definition push_zero_array :: "uint8array list \<times> heap \<Rightarrow> nat \<Rightarrow> uint8array list \<times> heap" where
  "push_zero_array mh i =
     (let (arr, h1) = new_Uint8Array 31 (snd mh);
          h2 = fill arr 0 h1
      in (fst mh @ [arr], h2))"

definition createMessageArrays ::
  "uint8array \<Rightarrow> uint8array \<Rightarrow> 'v \<Rightarrow> heap \<Rightarrow> uint8array list \<times> heap" where
  "createMessageArrays donationAddress arbChainId verificationData h =
     (let (msgArrays, h1) = foldl push_zero_array ([donationAddress, arbChainId], h) [0..<5];
          h2 = foldl (\<lambda>h' i. set_index (msgArrays ! i) 30 (of_nat (i + 1)) h') h1
                 [0..<length msgArrays]
      in (msgArrays, h2))"

text \<open>
  \<^verbatim>\<open>
  function chainIdToUint8Array(chainId) {
    const chainIdBytes = new Uint8Array(31);
    chainIdBytes.fill(0);
    chainIdBytes[0] = chainId & 0xff;
    chainIdBytes[1] = (chainId >> 8) & 0xff;
    chainIdBytes[30] = 2;
    return chainIdBytes;
  }
  \<close>
  The elements of the array it returns, for an integer \<open>chainId\<close>: the bitwise
  operators work on the 32-bit two's complement value, whose bits 0 to 15 are those of
  the integer.
\<close>

definition chainIdToUint8Array :: "int \<Rightarrow> byte list" where
  "chainIdToUint8Array chainId =
     (replicate 31 0)[0 := of_int chainId, 1 := of_int (chainId div 256), 30 := 2]"

text \<open>
  The one call of \<open>createMessageArrays\<close> is in \<^verbatim>\<open>main\<close>:
  \<^verbatim>\<open>
  const vault_address = hexAddressToUint8Array(targetVaultAddress);
  const arb_chain_id_as_u8_31 = chainIdToUint8Array(arb_chain_id);
  const msgArrays = createMessageArrays(vault_address, arb_chain_id_as_u8_31, verificationData);
  \<close>
  Both arguments are arrays that the two functions have just built, each with
  \<^verbatim>\<open>new Uint8Array(31)\<close> followed by stores into its elements. \<open>Uint8Array_from\<close>
  builds an array that way, ending with the elements \<open>bs\<close>, and
  \<open>main_createMessageArrays\<close> is the three statements, for the elements that the two
  functions produce.
\<close>

definition Uint8Array_from :: "byte list \<Rightarrow> heap \<Rightarrow> uint8array \<times> heap" where
  "Uint8Array_from bs h =
     (let (arr, h1) = new_Uint8Array (length bs) h
      in (arr, foldl (\<lambda>h' i. set_index arr i (bs ! i) h') h1 [0..<length bs]))"

definition main_createMessageArrays ::
  "byte list \<Rightarrow> byte list \<Rightarrow> 'v \<Rightarrow> heap \<Rightarrow> uint8array list \<times> heap" where
  "main_createMessageArrays vault_bytes chain_bytes verificationData h =
     (let (vault_address, h1) = Uint8Array_from vault_bytes h;
          (arb_chain_id_as_u8_31, h2) = Uint8Array_from chain_bytes h1
      in createMessageArrays vault_address arb_chain_id_as_u8_31 verificationData h2)"

section \<open>Process lifecycle of send-message.mjs\<close>

text \<open>
  The module variables \<^verbatim>\<open>pxe\<close> and \<^verbatim>\<open>nodeClient\<close> are undefined until
  \<^verbatim>\<open>init\<close> assigns them, \<^verbatim>\<open>nodeClient\<close> first; the state records whether each
  holds an object. What the process does is a list of effects in order: console lines,
  a call of \<^verbatim>\<open>pxe.close()\<close>, \<^verbatim>\<open>process.exit(code)\<close>, and a promise rejection
  that nothing handles. The state also holds the handlers that are suspended at
  \<^verbatim>\<open>await pxe.close()\<close>, each with the code it will pass to \<^verbatim>\<open>process.exit\<close>,
  in the order of their calls of \<^verbatim>\<open>close\<close>, and the code the process has ended with,
  once it has.
\<close>

datatype signal = SIGINT | SIGTERM

datatype console_line =
    CleaningUpResources
  | PxeServiceClosed
  | NodeClientCleanedUp
  | ErrorDuringCleanup "string option"
  | ReceivedSignal signal
  | UnhandledError js_error

datatype effect =
    Console console_line
  | PxeClose
  | ProcessExit nat
  | UnhandledRejection js_error

record process_state =
  pxe :: bool
  nodeClient :: bool
  waiting :: "nat list"
  exited :: "nat option"
  effects :: "effect list"

definition emit :: "effect list \<Rightarrow> process_state \<Rightarrow> process_state" where
  "emit es s = s\<lparr>effects := effects s @ es\<rparr>"

definition process_exit :: "nat \<Rightarrow> process_state \<Rightarrow> process_state" where
  "process_exit code s = (emit [ProcessExit code] s)\<lparr>exited := Some code\<rparr>"

text \<open>
  The promise that \<^verbatim>\<open>pxe.close()\<close> returns belongs to the PXE service: it may
  resolve, reject with any value as the reason, or stay pending. The reason of a
  rejection reaches the program in \<^verbatim>\<open>error.message\<close> only. Reading that property
  throws a \<^verbatim>\<open>TypeError\<close> when the reason is \<^verbatim>\<open>null\<close> or \<^verbatim>\<open>undefined\<close>; for
  any other reason it gives the message of the reason, or \<^verbatim>\<open>undefined\<close> when it has
  none.
\<close>

datatype rejection_reason = ReasonNull | ReasonUndefined | ReasonValue "string option"

fun message_of :: "rejection_reason \<Rightarrow> js_error + string option" where
  "message_of ReasonNull = Inl (Error ''TypeError: Cannot read properties of null'')"
| "message_of ReasonUndefined = Inl (Error ''TypeError: Cannot read properties of undefined'')"
| "message_of (ReasonValue msg) = Inr msg"

datatype close_result = CloseResolves | CloseRejects rejection_reason

text \<open>
  \<^verbatim>\<open>
  async function cleanup() {
    console.log('Cleaning up resources...');
    try {
      if (pxe) { await pxe.close(); console.log('PXE service closed'); }
      if (nodeClient) { nodeClient = null; console.log('Node client cleaned up'); }
    } catch (error) { console.error('Error during cleanup:', error.message); }
  }
  \<close>
  The function runs in two parts when the PXE service exists. \<open>cleanup_begin\<close> runs
  up to \<^verbatim>\<open>await pxe.close()\<close> and says whether it has stopped there; without a PXE
  service it runs to the end. \<open>cleanup_resume\<close> is the rest, run when the promise of
  \<^verbatim>\<open>close\<close> settles: a rejection jumps to the \<^verbatim>\<open>catch\<close> block, so the node
  client is then left as it was, and an error thrown inside the \<^verbatim>\<open>catch\<close> block is
  thrown by \<open>cleanup\<close>. A promise that stays pending never resumes the function.
\<close>

definition cleanup_nodeClient :: "process_state \<Rightarrow> process_state" where
  "cleanup_nodeClient s =
     (if nodeClient s then emit [Console NodeClientCleanedUp] (s\<lparr>nodeClient := False\<rparr>) else s)"

definition cleanup_begin :: "process_state \<Rightarrow> bool \<times> process_state" where
  "cleanup_begin s =
     (let s1 = emit [Console CleaningUpResources] s
      in if pxe s1 then (True, emit [PxeClose] s1) else (False, cleanup_nodeClient s1))"

definition cleanup_resume :: "close_result \<Rightarrow> process_state \<Rightarrow> js_error option \<times> process_state" where
  "cleanup_resume r s =
     (case r of
        CloseResolves \<Rightarrow> (None, cleanup_nodeClient (emit [Console PxeServiceClosed] s))
      | CloseRejects reason \<Rightarrow>
          (case message_of reason of
             Inr msg \<Rightarrow> (None, emit [Console (ErrorDuringCleanup msg)] s)
           | Inl thrown \<Rightarrow> (Some thrown, s)))"

text \<open>
  \<^verbatim>\<open>
  process.on('SIGINT', async () => {
    console.log('Received SIGINT, cleaning up...'); await cleanup(); process.exit(0); });
  process.on('SIGTERM', async () => {
    console.log('Received SIGTERM, cleaning up...'); await cleanup(); process.exit(0); });
  main().catch(async (error) => {
    console.error('Unhandled error:', error); await cleanup(); process.exit(1); });
  \<close>
  The three handlers differ in their first line and in the exit code. A handler whose
  \<open>cleanup\<close> has stopped at \<^verbatim>\<open>await pxe.close()\<close> joins the waiting handlers;
  otherwise it goes on to \<^verbatim>\<open>process.exit\<close> with no other event in between. When
  \<open>cleanup\<close> throws, the promise of the handler rejects and nothing handles it: Node
  then ends the process with code 1, its default, which the script does not change.
\<close>

definition handler_begin :: "console_line \<Rightarrow> nat \<Rightarrow> process_state \<Rightarrow> process_state" where
  "handler_begin line code s =
     (let (suspended, s1) = cleanup_begin (emit [Console line] s)
      in if suspended then s1\<lparr>waiting := waiting s1 @ [code]\<rparr> else process_exit code s1)"

definition handler_resume :: "nat \<Rightarrow> close_result \<Rightarrow> process_state \<Rightarrow> process_state" where
  "handler_resume code r s =
     (case cleanup_resume r s of
        (None, s1) \<Rightarrow> process_exit code s1
      | (Some thrown, s1) \<Rightarrow> (emit [UnhandledRejection thrown] s1)\<lparr>exited := Some 1\<rparr>)"

definition on_signal :: "signal \<Rightarrow> process_state \<Rightarrow> process_state" where
  "on_signal sig s = handler_begin (ReceivedSignal sig) 0 s"

definition on_main_rejected :: "js_error \<Rightarrow> process_state \<Rightarrow> process_state" where
  "on_main_rejected error s = handler_begin (UnhandledError error) 1 s"

text \<open>
  The events of a run: a signal arrives, the promise of \<^verbatim>\<open>main()\<close> rejects, the
  call of \<^verbatim>\<open>pxe.close()\<close> that the \<open>k\<close>-th waiting handler awaits settles, and
  \<^verbatim>\<open>init\<close> assigns \<^verbatim>\<open>nodeClient\<close> or \<^verbatim>\<open>pxe\<close>. Once the process has ended,
  nothing happens any more.
\<close>

datatype event =
    Signal signal
  | MainRejects js_error
  | CloseSettles nat close_result
  | NodeClientCreated
  | PxeCreated

definition process_step :: "event \<Rightarrow> process_state \<Rightarrow> process_state" where
  "process_step e s =
     (if exited s \<noteq> None then s
      else case e of
             Signal sig \<Rightarrow> on_signal sig s
           | MainRejects error \<Rightarrow> on_main_rejected error s
           | CloseSettles k r \<Rightarrow>
               if k < length (waiting s)
               then handler_resume (waiting s ! k) r
                      (s\<lparr>waiting := take k (waiting s) @ drop (Suc k) (waiting s)\<rparr>)
               else s
           | NodeClientCreated \<Rightarrow> s\<lparr>nodeClient := True\<rparr>
           | PxeCreated \<Rightarrow> s\<lparr>pxe := True\<rparr>)"

fun process_run :: "event list \<Rightarrow> process_state \<Rightarrow> process_state" where
  "process_run [] s = s"
| "process_run (e # es) s = process_run es (process_step e s)"

definition initial_state :: process_state where
  "initial_state = \<lparr>pxe = False, nodeClient = False, waiting = [], exited = None, effects = []\<rparr>"

text \<open>
  A settlement after which \<open>cleanup\<close> returns: the promise resolves, or it rejects with
  a reason whose message can be read. An event that is a settlement.
\<close>

definition cleanup_returns :: "close_result \<Rightarrow> bool" where
  "cleanup_returns r = (case r of CloseResolves \<Rightarrow> True | CloseRejects reason \<Rightarrow> \<not> isl (message_of reason))"

fun is_settlement :: "event \<Rightarrow> bool" where
  "is_settlement (CloseSettles k r) = True"
| "is_settlement e = False"

section \<open>EVMClient.SendVerifyTransaction of the relayer's EVM client (Go)\<close>

text \<open>
  Go's \<^verbatim>\<open>error\<close> values carry a message; \<^verbatim>\<open>nil\<close> is \<open>None\<close> of
  \<open>go_error option\<close>. \<^verbatim>\<open>fmt.Errorf("prefix: %v", err)\<close> builds a new, non-nil error
  from the prefix and the message of \<open>err\<close>.
\<close>

datatype go_error = GoError string

fun error_text :: "go_error \<Rightarrow> string" where
  "error_text (GoError m) = m"

definition Errorf :: "string \<Rightarrow> go_error \<Rightarrow> go_error" where
  "Errorf prefix err = GoError (prefix @ error_text err)"

text \<open>
  The values of go-ethereum that the function builds. \<^verbatim>\<open>common.HexToAddress\<close> is
  kept as a constructor: the address is whatever the library reads from the string.
  \<^verbatim>\<open>types.NewTransaction(nonce, to, amount, gasLimit, gasPrice, data)\<close> fills a legacy
  transaction; the nonce and the gas limit are \<^verbatim>\<open>uint64\<close>, the amount and the gas
  price \<^verbatim>\<open>*big.Int\<close>. \<^verbatim>\<open>types.SignTx\<close> returns the transaction with the
  signature attached (\<^verbatim>\<open>tx.WithSignature\<close>), its fields unchanged.
\<close>

datatype address = HexToAddress string

record transaction =
  tx_nonce :: "64 word"
  tx_to :: address
  tx_value :: int
  tx_gas :: "64 word"
  tx_gasPrice :: int
  tx_data :: "byte list"

definition NewTransaction ::
  "64 word \<Rightarrow> address \<Rightarrow> int \<Rightarrow> 64 word \<Rightarrow> int \<Rightarrow> byte list \<Rightarrow> transaction" where
  "NewTransaction nonce to amount gasLimit gasPrice data =
     \<lparr>tx_nonce = nonce, tx_to = to, tx_value = amount, tx_gas = gasLimit,
      tx_gasPrice = gasPrice, tx_data = data\<rparr>"

record signed_transaction =
  signed_inner :: transaction
  signed_chainID :: int
  signed_sig :: "byte list"

definition WithSignature :: "transaction \<Rightarrow> int \<Rightarrow> byte list \<Rightarrow> signed_transaction" where
  "WithSignature tx chainID sig =
     \<lparr>signed_inner = tx, signed_chainID = chainID, signed_sig = sig\<rparr>"

text \<open>
  \<^verbatim>\<open>signedTx.Hash().Hex()\<close> is \<^verbatim>\<open>hexutil.Encode\<close> of the hash bytes: the
  characters \<^verbatim>\<open>0x\<close> followed by two lower-case hexadecimal digits per byte.
\<close>

definition hex_char :: "nat \<Rightarrow> char" where
  "hex_char d = ''0123456789abcdef'' ! d"

definition hexutil_Encode :: "byte list \<Rightarrow> string" where
  "hexutil_Encode b =
     ''0x'' @ concat (map (\<lambda>x. [hex_char (unat x div 16), hex_char (unat x mod 16)]) b)"

text \<open>
  The contract ABI encoding that \<^verbatim>\<open>abi.Pack\<close> of go-ethereum produces for
  arguments of type \<^verbatim>\<open>bytes\<close>: a 32-byte big-endian word per argument in the head,
  holding the offset of its tail, and in the tail the length as a 32-byte word followed
  by the bytes, padded on the right with zeros to a multiple of 32
  (\<^verbatim>\<open>packBytesSlice\<close>, \<^verbatim>\<open>common.RightPadBytes\<close>). \<^verbatim>\<open>Pack\<close> fails for an
  unknown method name and for a wrong number of arguments, and puts the method's 4-byte
  identifier first.
\<close>

definition uint256_be :: "nat \<Rightarrow> byte list" where
  "uint256_be n = map (\<lambda>i. of_nat (n div 256 ^ (31 - i))) [0..<32]"

definition RightPadBytes :: "byte list \<Rightarrow> nat \<Rightarrow> byte list" where
  "RightPadBytes b l = (if l \<le> length b then b else b @ replicate (l - length b) 0)"

definition packBytesSlice :: "byte list \<Rightarrow> byte list" where
  "packBytesSlice b = uint256_be (length b) @ RightPadBytes b ((length b + 31) div 32 * 32)"

record abi_method =
  method_name :: string
  method_inputs :: nat
  method_ID :: "byte list"

type_synonym abi = "abi_method list"

fun pack_arguments :: "nat \<Rightarrow> byte list list \<Rightarrow> byte list \<times> byte list" where
  "pack_arguments offset [] = ([], [])"
| "pack_arguments offset (b # bs) =
     (let tail = packBytesSlice b;
          rest = pack_arguments (offset + length tail) bs
      in (uint256_be offset @ fst rest, tail @ snd rest))"

definition Pack :: "abi \<Rightarrow> string \<Rightarrow> byte list list \<Rightarrow> go_error + byte list" where
  "Pack parsedABI name args =
     (case find (\<lambda>m. method_name m = name) parsedABI of
        None \<Rightarrow> Inl (GoError (''method '' @ [CHR 0x27] @ name @ [CHR 0x27] @ '' not found''))
      | Some method \<Rightarrow>
          if length args \<noteq> method_inputs method
          then Inl (GoError ''argument count mismatch'')
          else (let packed = pack_arguments (32 * length args) args
                in Inr (method_ID method @ fst packed @ snd packed)))"

text \<open>
  \<^verbatim>\<open>abi.JSON(strings.NewReader(abiJSON))\<close> for the constant of the source,
  \<^verbatim>\<open>[{"inputs": [{"internalType": "bytes", "name": "encodedVm", "type": "bytes"}],
  "name": "verify", "outputs": [], "stateMutability": "nonpayable", "type": "function"}]\<close>:
  one method, \<^verbatim>\<open>verify(bytes)\<close>, whose identifier is the first four bytes of the
  Keccak-256 hash of that signature, \<^verbatim>\<open>8e760afe\<close>.
\<close>

definition abi_JSON_verify :: "go_error + abi" where
  "abi_JSON_verify =
     Inr [\<lparr>method_name = ''verify'', method_inputs = 1, method_ID = [0x8e, 0x76, 0x0a, 0xfe]\<rparr>]"

text \<open>
  The node and the signer are outside the program. What each of their calls returns in
  one invocation is an input of the model: \<^verbatim>\<open>PendingNonceAt\<close>,
  \<^verbatim>\<open>SuggestGasPrice\<close>, \<^verbatim>\<open>NetworkID\<close>, \<^verbatim>\<open>types.SignTx\<close> (the signature it
  attaches), \<^verbatim>\<open>SendTransaction\<close>, and the hash of the signed transaction. The model
  returns, next to Go's pair \<^verbatim>\<open>(string, error)\<close>, the calls it made on the node in
  order, so that what was broadcast can be stated.
\<close>

record evm_node =
  PendingNonceAt :: "go_error + 64 word"
  SuggestGasPrice :: "go_error + int"
  NetworkID :: "go_error + int"
  SignTx :: "go_error + byte list"
  SendTransaction :: "go_error + unit"
  Hash :: "byte list"

datatype rpc_call =
    CallPendingNonceAt address
  | CallSuggestGasPrice
  | CallNetworkID
  | CallSendTransaction signed_transaction

type_synonym submit_result = "(string \<times> go_error option) \<times> rpc_call list"

text \<open>
  Every step of the function has the shape
  \<^verbatim>\<open>v, err := call(); if err != nil { return "", fmt.Errorf("prefix: %v", err) }\<close>.
  \<open>try_call\<close> is that step: \<open>made\<close> are the node calls the step performs, and
  \<open>continue\<close> is the rest of the function.
\<close>

definition try_call ::
  "go_error + 'a \<Rightarrow> string \<Rightarrow> rpc_call list \<Rightarrow> ('a \<Rightarrow> submit_result) \<Rightarrow> submit_result" where
  "try_call r prefix made continue =
     (case r of
        Inl err \<Rightarrow> (('''', Some (Errorf prefix err)), made)
      | Inr v \<Rightarrow> (fst (continue v), made @ snd (continue v)))"

text \<open>
  \<^verbatim>\<open>
  func (c *EVMClient) SendVerifyTransaction(ctx, targetContract string, vaaBytes []byte) (string, error) {
    parsedABI, err := abi.JSON(strings.NewReader(abiJSON))
    if err != nil { return "", fmt.Errorf("ABI parse error: %v", err) }
    data, err := parsedABI.Pack("verify", vaaBytes)
    if err != nil { return "", fmt.Errorf("ABI pack error: %v", err) }
    nonce, err := c.client.PendingNonceAt(ctx, c.address)
    if err != nil { return "", fmt.Errorf("failed to get nonce: %v", err) }
    gasPrice, err := c.client.SuggestGasPrice(ctx)
    if err != nil { return "", fmt.Errorf("failed to get gas price: %v", err) }
    targetAddr := common.HexToAddress(targetContract)
    tx := types.NewTransaction(nonce, targetAddr, big.NewInt(0), 3000000, gasPrice, data)
    chainID, err := c.client.NetworkID(ctx)
    if err != nil { return "", fmt.Errorf("failed to get chain ID: %v", err) }
    signedTx, err := types.SignTx(tx, types.NewEIP155Signer(chainID), c.privateKey)
    if err != nil { return "", fmt.Errorf("failed to sign transaction: %v", err) }
    err = c.client.SendTransaction(ctx, signedTx)
    if err != nil { return "", fmt.Errorf("failed to send transaction: %v", err) }
    return signedTx.Hash().Hex(), nil
  }
  \<close>
\<close>

definition SendVerifyTransaction ::
  "evm_node \<Rightarrow> address \<Rightarrow> string \<Rightarrow> byte list \<Rightarrow> submit_result" where
  "SendVerifyTransaction node c_address targetContract vaaBytes =
     try_call abi_JSON_verify ''ABI parse error: '' [] (\<lambda>parsedABI.
     try_call (Pack parsedABI ''verify'' [vaaBytes]) ''ABI pack error: '' [] (\<lambda>data.
     try_call (PendingNonceAt node) ''failed to get nonce: ''
       [CallPendingNonceAt c_address] (\<lambda>nonce.
     try_call (SuggestGasPrice node) ''failed to get gas price: ''
       [CallSuggestGasPrice] (\<lambda>gasPrice.
     try_call (NetworkID node) ''failed to get chain ID: ''
       [CallNetworkID] (\<lambda>chainID.
     try_call (SignTx node) ''failed to sign transaction: '' [] (\<lambda>sig.
     try_call (SendTransaction node) ''failed to send transaction: ''
       [CallSendTransaction
          (WithSignature
             (NewTransaction nonce (HexToAddress targetContract) 0 3000000 gasPrice data)
             chainID sig)] (\<lambda>sent.
     ((hexutil_Encode (Hash node), None), []))))))))"

text \<open>Every call on the node and the signing succeed.\<close>

definition all_calls_succeed :: "evm_node \<Rightarrow> bool" where
  "all_calls_succeed node \<longleftrightarrow>
     \<not> isl (PendingNonceAt node) \<and> \<not> isl (SuggestGasPrice node) \<and> \<not> isl (NetworkID node)
     \<and> \<not> isl (SignTx node) \<and> \<not> isl (SendTransaction node)"

section \<open>The relayer pipeline, modelled from the spec\<close>

text \<open>
  The relayer's own pipeline (the route table, the dedup ledger, the dispatcher and the
  retry and failover controller of \<^verbatim>\<open>relayer.go\<close>) and the \<^verbatim>\<open>Vault\<close> contract
  are not among the sources: of the relayer only its EVM client is, and of the contract
  only its deployment script. The definitions of this section follow the words of the
  spec (sections 3 and 4), each with the sentence it renders.
\<close>

subsection \<open>Data model (spec, section 3)\<close>

text \<open>
  Modelled from the spec: the Attestation envelope of \<^verbatim>\<open>relayer.go\<close>, ``origin chain
  identifier (numeric), origin emitter address (chain-specific byte string), a
  monotonically increasing per-emitter sequence number, an opaque payload (bytes), and
  an aggregate signature proof''. Its identity for dedup purposes is the triple of the
  first three.
\<close>

record attestation =
  origin_chain :: nat
  origin_emitter :: "byte list"
  sequence_number :: nat
  payload :: "byte list"
  signature_proof :: "byte list"

type_synonym identity = "nat \<times> byte list \<times> nat"

definition identity_of :: "attestation \<Rightarrow> identity" where
  "identity_of a = (origin_chain a, origin_emitter a, sequence_number a)"

text \<open>
  Modelled from the spec: the Route of the relayer's configuration, ``a configured
  pairing of (origin chain identifier, origin emitter address) to (destination chain
  identifier, destination client, destination verification endpoint)''.
\<close>

record route =
  route_origin_chain :: nat
  route_origin_emitter :: "byte list"
  destination_chain :: nat
  destination_context :: string

text \<open>
  Modelled from the spec: the failure modes a chain client distinguishes (section 4.5),
  Transient, Service-unavailable and Permanent, each with its message.
\<close>

datatype submission_error =
    Transient string
  | ServiceUnavailable string
  | Permanent string

text \<open>
  Modelled from the spec: the ProcessingRecord of the Dedup Ledger, ``identity triple,
  status in pending, in-flight, confirmed, failed-permanent, destination transaction
  identifier (once known), attempt count, last error''. The ledger maps an identity to
  its record.
\<close>

datatype status = Pending | InFlight | Confirmed | FailedPermanent

record processing_record =
  status :: status
  destination_tx :: "string option"
  attempt_count :: nat
  last_error :: "submission_error option"

type_synonym ledger = "identity \<rightharpoonup> processing_record"

subsection \<open>Relevance Filter (spec, section 4.2)\<close>

text \<open>
  Modelled from the spec: the Relevance Filter of \<^verbatim>\<open>relayer.go\<close>, ``pure function
  isRelevant(attestation, routeTable) -> Route | none'', where ``matching is exact on
  (origin chain identifier, origin emitter address), no wildcard or prefix matching''.
\<close>

definition isRelevant :: "attestation \<Rightarrow> route list \<Rightarrow> route option" where
  "isRelevant a routeTable =
     find (\<lambda>r. route_origin_chain r = origin_chain a
              \<and> route_origin_emitter r = origin_emitter a) routeTable"

text \<open>
  The deployment script \<^verbatim>\<open>DeployVault.run\<close> is among the sources:
  \<^verbatim>\<open>
  uint16 chainId = 10003;
  bytes32 emitterAddress = hex"0d6fe810321185c97a0e94200f998bcae787aaddf953a03b14ec5da3b6838bad";
  uint16 emitterChainId = 52;
  ...
  vault.registerEmitter(emitterChainId, emitterAddress);
  \<close>
\<close>

definition chainId :: nat where
  "chainId = 10003"

definition emitterChainId :: nat where
  "emitterChainId = 52"

definition emitterAddress :: "byte list" where
  "emitterAddress =
     [0x0d, 0x6f, 0xe8, 0x10, 0x32, 0x11, 0x85, 0xc9, 0x7a, 0x0e, 0x94, 0x20, 0x0f, 0x99, 0x8b, 0xca,
      0xe7, 0x87, 0xaa, 0xdd, 0xf9, 0x53, 0xa0, 0x3b, 0x14, 0xec, 0x5d, 0xa3, 0xb6, 0x83, 0x8b, 0xad]"

text \<open>
  Modelled from the spec: \<^verbatim>\<open>Vault.registerEmitter\<close> (\<^verbatim>\<open>Vault.sol\<close> is not among
  the sources), read as adding to the route table the route from the registered origin
  pair to the chain the vault runs on.
\<close>

definition registerEmitter :: "nat \<Rightarrow> byte list \<Rightarrow> nat \<Rightarrow> route list \<Rightarrow> route list" where
  "registerEmitter origin emitter destination routeTable =
     routeTable @ [\<lparr>route_origin_chain = origin, route_origin_emitter = emitter,
                    destination_chain = destination, destination_context = ''Vault''\<rparr>]"

definition DeployVault_routes :: "route list" where
  "DeployVault_routes = registerEmitter emitterChainId emitterAddress chainId []"

subsection \<open>Dedup Ledger (spec, section 4.3)\<close>

text \<open>
  Modelled from the spec: \<^verbatim>\<open>tryBegin\<close> of the Dedup Ledger, ``if no record exists or
  existing record is failed-permanent and eligible for retry, create/transition to
  in-flight and return true; if already in-flight or confirmed, return false''. A
  pending record (one left in-flight at a shutdown, section 4.3: ``treated as pending
  and is eligible for re-attempt'') moves to in-flight. When a failed record is
  eligible for retry is operator policy, so it is a parameter.
\<close>

definition tryBegin ::
  "(processing_record \<Rightarrow> bool) \<Rightarrow> identity \<Rightarrow> ledger \<Rightarrow> bool \<times> ledger" where
  "tryBegin eligible_for_retry i l =
     (case l i of
        None \<Rightarrow>
          (True, l(i \<mapsto> \<lparr>status = InFlight, destination_tx = None, attempt_count = 0,
                          last_error = None\<rparr>))
      | Some r \<Rightarrow>
          (case status r of
             Pending \<Rightarrow> (True, l(i \<mapsto> r\<lparr>status := InFlight\<rparr>))
           | InFlight \<Rightarrow> (False, l)
           | Confirmed \<Rightarrow> (False, l)
           | FailedPermanent \<Rightarrow>
               if eligible_for_retry r then (True, l(i \<mapsto> r\<lparr>status := InFlight\<rparr>))
               else (False, l)))"

text \<open>
  Modelled from the spec: the outcome the controller reports and \<^verbatim>\<open>commit\<close> of the
  Dedup Ledger, which ``transitions in-flight to confirmed or failed-permanent, storing
  the destination transaction identifier or the terminal error''.
\<close>

datatype outcome = ConfirmedWith string | FailedPermanentWith "submission_error option"

definition commit :: "identity \<Rightarrow> outcome \<Rightarrow> nat \<Rightarrow> ledger \<Rightarrow> ledger" where
  "commit i out attempts l =
     (case l i of
        None \<Rightarrow> l
      | Some r \<Rightarrow>
          if status r \<noteq> InFlight then l
          else (case out of
                  ConfirmedWith tx \<Rightarrow>
                    l(i \<mapsto> r\<lparr>status := Confirmed, destination_tx := Some tx,
                             attempt_count := attempt_count r + attempts\<rparr>)
                | FailedPermanentWith e \<Rightarrow>
                    l(i \<mapsto> r\<lparr>status := FailedPermanent, last_error := e,
                             attempt_count := attempt_count r + attempts\<rparr>)))"

text \<open>
  Modelled from the spec: the restart of the relayer, ``on restart, any record left
  in-flight is treated as pending''; every other record survives as it is.
\<close>

definition restart_ledger :: "ledger \<Rightarrow> ledger" where
  "restart_ledger l =
     (\<lambda>i. case l i of
             None \<Rightarrow> None
           | Some r \<Rightarrow> Some (if status r = InFlight then r\<lparr>status := Pending\<rparr> else r))"

subsection \<open>Chain clients and the Retry/Failover Controller (spec, sections 4.5 and 4.6)\<close>

text \<open>
  Modelled from the spec: a chain client as the controller sees it. It has a preferred
  (primary) submission path and a secondary one on the same chain, and
  \<^verbatim>\<open>submitVerification\<close> answers with a destination transaction identifier or one of
  the three failures. The client is an external collaborator whose answer may change
  from attempt to attempt, so it is a function of the path, the number of the attempt
  and the payload.
\<close>

datatype path = Primary | Secondary

type_synonym chain_client = "path \<Rightarrow> nat \<Rightarrow> byte list \<Rightarrow> submission_error + string"

text \<open>
  Modelled from the spec: the structured log entry that every attempt emits, with the
  path, the attempt number and the outcome of the attempt.
\<close>

record attempt =
  attempt_path :: path
  attempt_number :: nat
  attempt_result :: "submission_error + string"

text \<open>
  Modelled from the spec: \<^verbatim>\<open>execute(client, payload) -> outcome\<close> of the
  Retry/Failover Controller. ``Bounded number of attempts (configurable) with
  exponential backoff between attempts for Transient failures; on Service-unavailable,
  immediately switches to the client's secondary submission path for the remaining
  attempt budget before falling back to Transient handling; on Permanent, returns
  immediately without consuming further attempts''; the terminal states are confirmed
  (on success) and failed-permanent (on Permanent or attempt budget exhausted). The
  backoff is a delay and has no part in the model. \<open>run_attempts\<close> is the loop, with
  the path in use, the attempts left, the number of the next attempt and the last
  error; it returns the outcome and the log of the attempts made.
\<close>

fun run_attempts ::
  "chain_client \<Rightarrow> byte list \<Rightarrow> path \<Rightarrow> nat \<Rightarrow> nat \<Rightarrow> submission_error option
     \<Rightarrow> outcome \<times> attempt list" where
  "run_attempts client pl p 0 n last_err = (FailedPermanentWith last_err, [])"
| "run_attempts client pl p (Suc budget) n last_err =
     (let entry = \<lparr>attempt_path = p, attempt_number = n, attempt_result = client p n pl\<rparr>
      in case client p n pl of
           Inr tx \<Rightarrow> (ConfirmedWith tx, [entry])
         | Inl (Permanent m) \<Rightarrow> (FailedPermanentWith (Some (Permanent m)), [entry])
         | Inl (Transient m) \<Rightarrow>
             (fst (run_attempts client pl p budget (Suc n) (Some (Transient m))),
              entry # snd (run_attempts client pl p budget (Suc n) (Some (Transient m))))
         | Inl (ServiceUnavailable m) \<Rightarrow>
             (fst (run_attempts client pl Secondary budget (Suc n)
                     (Some (ServiceUnavailable m))),
              entry # snd (run_attempts client pl Secondary budget (Suc n)
                             (Some (ServiceUnavailable m)))))"

definition execute :: "nat \<Rightarrow> chain_client \<Rightarrow> byte list \<Rightarrow> outcome \<times> attempt list" where
  "execute max_attempts client pl = run_attempts client pl Primary max_attempts 1 None"

subsection \<open>Dispatcher and worker (spec, sections 4.4 and 5)\<close>

text \<open>
  Modelled from the spec: the relayer's configuration (the static route table, the
  maximum number of attempts, the retry eligibility policy and the client of each
  route) and its state: the ledger, every submission call made so far with the identity
  it was made for, and the diagnostic log.
\<close>

record relayer_config =
  routes :: "route list"
  max_attempts :: nat
  eligible_for_retry :: "processing_record \<Rightarrow> bool"
  client_of :: "route \<Rightarrow> chain_client"

datatype diagnostic = NoRoute identity | AlreadyProcessing identity

record relayer_state =
  ledger :: ledger
  submissions :: "(identity \<times> attempt) list"
  diagnostics :: "diagnostic list"

text \<open>
  Modelled from the spec: \<^verbatim>\<open>dispatch(attestation, route)\<close> of the Dispatcher. ``Calls
  Dedup Ledger tryBegin; if false, drops the attestation (already handled or in flight)
  and logs at diagnostic level. If true, invokes the Retry/Failover Controller with the
  route's destination client and the attestation payload, then calls commit with the
  resulting outcome.''
\<close>

definition dispatch ::
  "relayer_config \<Rightarrow> attestation \<Rightarrow> route \<Rightarrow> relayer_state \<Rightarrow> relayer_state" where
  "dispatch cfg a r s =
     (let i = identity_of a;
          begun = tryBegin (eligible_for_retry cfg) i (ledger s)
      in if \<not> fst begun
         then s\<lparr>diagnostics := diagnostics s @ [AlreadyProcessing i]\<rparr>
         else (let done = execute (max_attempts cfg) (client_of cfg r) (payload a)
               in s\<lparr>ledger := commit i (fst done) (length (snd done)) (snd begun),
                    submissions := submissions s @ map (Pair i) (snd done)\<rparr>))"

text \<open>
  Modelled from the spec: one worker step, Relevance Filter then Dispatcher;
  ``attestations with no matching route are counted and logged at a low-priority
  level, and dropped without further processing''. A run of the relayer is a sequence
  of deliveries from the feed and restarts of the process.
\<close>

definition process :: "relayer_config \<Rightarrow> attestation \<Rightarrow> relayer_state \<Rightarrow> relayer_state" where
  "process cfg a s =
     (case isRelevant a (routes cfg) of
        None \<Rightarrow> s\<lparr>diagnostics := diagnostics s @ [NoRoute (identity_of a)]\<rparr>
      | Some r \<Rightarrow> dispatch cfg a r s)"

datatype relayer_event = Deliver attestation | Restart

fun relayer_step :: "relayer_config \<Rightarrow> relayer_event \<Rightarrow> relayer_state \<Rightarrow> relayer_state" where
  "relayer_step cfg (Deliver a) s = process cfg a s"
| "relayer_step cfg Restart s = s\<lparr>ledger := restart_ledger (ledger s)\<rparr>"

fun relayer_run :: "relayer_config \<Rightarrow> relayer_event list \<Rightarrow> relayer_state \<Rightarrow> relayer_state" where
  "relayer_run cfg [] s = s"
| "relayer_run cfg (e # es) s = relayer_run cfg es (relayer_step cfg e s)"

text \<open>The submission calls made for one identity.\<close>

definition submissions_for :: "identity \<Rightarrow> relayer_state \<Rightarrow> attempt list" where
  "submissions_for i s = map snd (filter (\<lambda>x. fst x = i) (submissions s))"

text \<open>Whether an attempt was answered with Service-unavailable.\<close>

definition is_unavailable :: "submission_error + string \<Rightarrow> bool" where
  "is_unavailable r = (case r of Inl (ServiceUnavailable m) \<Rightarrow> True | _ \<Rightarrow> False)"

subsection \<open>The scenarios of the spec (section 8)\<close>

text \<open>
  Modelled from the spec: the scenarios of section 8. An attestation with origin 52
  (``Aztec''), the registered emitter and sequence 100, which ``matches a configured
  route to destination chain 10003 (Arbitrum)''; an ``attestation from an unconfigured
  origin chain id=99''; a relayer configured with the routes of the deployment and a
  budget of three attempts, starting from an empty ledger; a client that succeeds on
  the first attempt, one that answers every attempt with a transient error, and one
  whose primary path is unavailable and whose secondary path succeeds.
\<close>

definition scenario_attestation :: attestation where
  "scenario_attestation =
     \<lparr>origin_chain = 52, origin_emitter = emitterAddress, sequence_number = 100,
      payload = [0xde, 0xad], signature_proof = []\<rparr>"

definition unconfigured_attestation :: attestation where
  "unconfigured_attestation =
     \<lparr>origin_chain = 99, origin_emitter = emitterAddress, sequence_number = 7,
      payload = [0xde, 0xad], signature_proof = []\<rparr>"

definition scenario_config :: "chain_client \<Rightarrow> relayer_config" where
  "scenario_config client =
     \<lparr>routes = DeployVault_routes, max_attempts = 3, eligible_for_retry = (\<lambda>r. True),
      client_of = (\<lambda>r. client)\<rparr>"

definition empty_state :: relayer_state where
  "empty_state = \<lparr>ledger = Map.empty, submissions = [], diagnostics = []\<rparr>"

definition succeeding_client :: chain_client where
  "succeeding_client p n pl = Inr ''0xab01''"

definition transient_client :: chain_client where
  "transient_client p n pl = Inl (Transient ''timeout'')"

definition failover_client :: chain_client where
  "failover_client p n pl =
     (case p of
        Primary \<Rightarrow> Inl (ServiceUnavailable ''verification service failed'')
      | Secondary \<Rightarrow> Inr ''0xab01'')"

text \<open>
  Modelled from the spec: the failover scenario of section 8 with the report of the
  auxiliary service arriving at a later attempt. The primary path answers the first
  attempt with a transient error and every later one with Service-unavailable; the
  secondary path succeeds.
\<close>

definition late_failover_client :: chain_client where
  "late_failover_client p n pl =
     (case p of
        Primary \<Rightarrow>
          if n = 1 then Inl (Transient ''timeout'')
          else Inl (ServiceUnavailable ''verification service failed'')
      | Secondary \<Rightarrow> Inr ''0xab02'')"

section \<open>Properties of the nonce counters\<close>

lemma call_nonce_counter_mono: "counter_of c s \<le> counter_of c (snd (call_nonce c' w s))"
  by (cases c; cases c'; cases w)
     (simp_all add: getNextTokenNonce_def getNextWalletNonce_def saveNoncesToFile_def)

lemma call_nonce_returns_above:
  "fst (call_nonce c w s) = Inr v \<Longrightarrow> counter_of c s < v \<and> v = counter_of c (snd (call_nonce c w s))"
  by (cases c; cases w)
     (auto simp: getNextTokenNonce_def getNextWalletNonce_def saveNoncesToFile_def)

lemma returned_above: "v \<in> set (returned c (run_calls cs s)) \<Longrightarrow> counter_of c s < v"
proof (induction cs arbitrary: s)
  case Nil
  then show ?case by simp
next
  case (Cons cw cs)
  obtain c' w where cw: "cw = (c', w)" by (cases cw)
  let ?s' = "snd (call_nonce c' w s)"
  have mono: "counter_of c s \<le> counter_of c ?s'"
    by (rule call_nonce_counter_mono)
  show ?case
  proof (cases "fst (call_nonce c' w s)")
    case (Inl e)
    with Cons.prems cw have "v \<in> set (returned c (run_calls cs ?s'))" by simp
    from Cons.IH [OF this] mono show ?thesis by simp
  next
    case (Inr u)
    show ?thesis
    proof (cases "c' = c \<and> v = u")
      case True
      with Inr call_nonce_returns_above [of c w s u] show ?thesis by simp
    next
      case False
      with Cons.prems cw Inr have "v \<in> set (returned c (run_calls cs ?s'))"
        by (auto split: if_splits)
      from Cons.IH [OF this] mono show ?thesis by simp
    qed
  qed
qed

lemma returned_increasing: "sorted_wrt (<) (returned c (run_calls cs s))"
proof (induction cs arbitrary: s)
  case Nil
  then show ?case by simp
next
  case (Cons cw cs)
  obtain c' w where cw: "cw = (c', w)" by (cases cw)
  let ?s' = "snd (call_nonce c' w s)"
  show ?case
  proof (cases "fst (call_nonce c' w s)")
    case (Inl e)
    with cw Cons.IH [of ?s'] show ?thesis by simp
  next
    case (Inr u)
    show ?thesis
    proof (cases "c' = c")
      case True
      with Inr call_nonce_returns_above [of c w s u]
      have u: "u = counter_of c ?s'" by simp
      have "\<forall>v \<in> set (returned c (run_calls cs ?s')). u < v"
        using returned_above [of _ c cs ?s'] u by simp
      with cw Inr True Cons.IH [of ?s'] show ?thesis by simp
    next
      case False
      with cw Inr Cons.IH [of ?s'] show ?thesis by simp
    qed
  qed
qed

text \<open>
  Claim C8. Every call to \<open>getNextTokenNonce\<close>, whether its write succeeds or throws,
  leaves the token counter exactly one higher and the wallet counter as it was; every
  call to \<open>getNextWalletNonce\<close> leaves the wallet counter exactly one higher and the
  token counter as it was. A call whose write succeeds returns, and a call that returns
  a value returns the new counter with \<^verbatim>\<open>nonce.json\<close> already holding the decimal
  strings of both counters. In every run of calls, in any interleaving and with any
  write outcomes, the values returned by either operation are strictly increasing.
\<close>

theorem nonce_counters_step_and_persist:
  "currentTokenNonce (snd (getNextTokenNonce w s)) = currentTokenNonce s + 1
   \<and> currentWalletNonce (snd (getNextTokenNonce w s)) = currentWalletNonce s
   \<and> currentWalletNonce (snd (getNextWalletNonce w s)) = currentWalletNonce s + 1
   \<and> currentTokenNonce (snd (getNextWalletNonce w s)) = currentTokenNonce s
   \<and> (w = Written \<longrightarrow>
        fst (getNextTokenNonce w s) = Inr (currentTokenNonce s + 1)
        \<and> fst (getNextWalletNonce w s) = Inr (currentWalletNonce s + 1))
   \<and> (\<forall>v. fst (getNextTokenNonce w s) = Inr v \<longrightarrow>
        v = currentTokenNonce s + 1
        \<and> nonce_json (snd (getNextTokenNonce w s)) =
            Some \<lparr>token_nonce = bigint_toString (currentTokenNonce s + 1),
                  wallet_nonce = bigint_toString (currentWalletNonce s)\<rparr>)
   \<and> (\<forall>v. fst (getNextWalletNonce w s) = Inr v \<longrightarrow>
        v = currentWalletNonce s + 1
        \<and> nonce_json (snd (getNextWalletNonce w s)) =
            Some \<lparr>token_nonce = bigint_toString (currentTokenNonce s),
                  wallet_nonce = bigint_toString (currentWalletNonce s + 1)\<rparr>)
   \<and> sorted_wrt (<) (returned NextToken (run_calls cs s))
   \<and> sorted_wrt (<) (returned NextWallet (run_calls cs s))"
  by (cases w)
     (simp_all add: getNextTokenNonce_def getNextWalletNonce_def saveNoncesToFile_def
        returned_increasing)

theorem nonce_counters_step_and_persist_witness:
  "fst (getNextTokenNonce Written
          \<lparr>currentTokenNonce = 67, currentWalletNonce = 100042, nonce_json = None\<rparr>) = Inr 68
   \<and> nonce_json (snd (getNextTokenNonce Written
          \<lparr>currentTokenNonce = 67, currentWalletNonce = 100042, nonce_json = None\<rparr>)) =
       Some \<lparr>token_nonce = ''68'', wallet_nonce = ''100042''\<rparr>
   \<and> fst (getNextWalletNonce Written
          \<lparr>currentTokenNonce = 67, currentWalletNonce = 100042, nonce_json = None\<rparr>) = Inr 100043
   \<and> nonce_json (snd (getNextWalletNonce Written
          \<lparr>currentTokenNonce = 67, currentWalletNonce = 100042, nonce_json = None\<rparr>)) =
       Some \<lparr>token_nonce = ''67'', wallet_nonce = ''100043''\<rparr>
   \<and> returned NextToken (run_calls
          [(NextToken, Written), (NextWallet, Written), (NextToken, WriteThrows (Error ''EACCES'')),
           (NextToken, Written)]
          \<lparr>currentTokenNonce = 67, currentWalletNonce = 100042, nonce_json = None\<rparr>) = [68, 70]"
  using nonce_counters_step_and_persist
    [of Written "\<lparr>currentTokenNonce = 67, currentWalletNonce = 100042, nonce_json = None\<rparr>"
        "[(NextToken, Written), (NextWallet, Written), (NextToken, WriteThrows (Error ''EACCES'')),
          (NextToken, Written)]"]
  by (simp add: bigint_toString_def nat_toString.simps digit_char_def getNextTokenNonce_def
        getNextWalletNonce_def saveNoncesToFile_def)

section \<open>Properties of hexAddressToUint8Array\<close>

lemma foldl_update_length: "length (foldl (\<lambda>a i. a[i := f i]) xs is) = length xs"
  by (induction "is" arbitrary: xs) auto

lemma foldl_update_nth:
  "k < length xs \<Longrightarrow>
   (foldl (\<lambda>a i. a[i := f i]) xs [0..<n]) ! k = (if k < n then f k else xs ! k)"
proof (induction n)
  case 0
  then show ?case by simp
next
  case (Suc n)
  let ?ys = "foldl (\<lambda>a i. a[i := f i]) xs [0..<n]"
  have len: "length ?ys = length xs" by (rule foldl_update_length)
  have "(?ys[n := f n]) ! k = (if k = n then f n else ?ys ! k)"
    using Suc.prems len by (simp add: nth_list_update)
  with Suc show ?case by auto
qed

lemma hex_not_ws: "hex_digit_val c = Some h \<Longrightarrow> \<not> is_js_whitespace c"
  by (auto simp: hex_digit_val_def is_js_whitespace_def split: if_splits)

lemma hex_not_sign: "hex_digit_val c = Some h \<Longrightarrow> c \<noteq> 0x2D \<and> c \<noteq> 0x2B \<and> c \<noteq> 0x78 \<and> c \<noteq> 0x58"
  by (auto simp: hex_digit_val_def split: if_splits)

lemma parseInt16_two_hex:
  assumes "hex_digit_val c1 = Some h1" "hex_digit_val c2 = Some h2"
  shows "parseInt16 [c1, c2] = Some (int (16 * h1 + h2))"
  using assms hex_not_ws [OF assms(1)] hex_not_sign [OF assms(1)] hex_not_sign [OF assms(2)]
  by (simp add: parseInt16_def js_str_def Let_def)

lemma hex_digit_val_bound: "hex_digit_val c = Some h \<Longrightarrow> h < 16"
  by (auto simp: hex_digit_val_def word_le_nat_alt split: if_splits)

lemma take_2_drop:
  assumes "Suc n < length xs"
  shows "take 2 (drop n xs) = [xs ! n, xs ! Suc n]"
proof -
  have a: "drop n xs = xs ! n # drop (Suc n) xs"
    using assms Cons_nth_drop_Suc [of n xs] by simp
  have b: "drop (Suc n) xs = xs ! Suc n # drop (Suc (Suc n)) xs"
    using assms Cons_nth_drop_Suc [of "Suc n" xs] by simp
  show ?thesis unfolding a b by simp
qed

lemma substring_pair:
  assumes "length s = 40" "i < 20"
  shows "substring s (i * 2) (i * 2 + 2) = [s ! (2 * i), s ! (2 * i + 1)]"
proof -
  have "Suc (i * 2) < length s" using assms by simp
  from take_2_drop [OF this] have "take 2 (drop (i * 2) s) = [s ! (i * 2), s ! Suc (i * 2)]" .
  moreover have "min (i * 2) (length s) = i * 2" "min (i * 2 + 2) (length s) = i * 2 + 2"
    using assms by simp_all
  ultimately show ?thesis
    by (simp add: substring_def Let_def mult.commute)
qed

text \<open>
  Claim C9. Let \<open>s\<close> be the input after the optional \<^verbatim>\<open>0x\<close> prefix is removed.
  When \<open>s\<close> does not have exactly 40 code units the function throws (and returns
  nothing). When it has, the function returns an array of 31 bytes: byte \<open>i\<close>, for
  \<open>i < 20\<close>, is what \<^verbatim>\<open>parseInt\<close> reads from the \<open>i\<close>-th pair of code units, which
  for a pair of hexadecimal digits is the byte they spell, and bytes 20 to 30 are zero.
\<close>

theorem hexAddressToUint8Array_shape:
  "(length (strip_0x a) \<noteq> 40 \<longrightarrow>
      hexAddressToUint8Array a =
        Inl (Error (''Invalid address length: '' @ nat_toString (length (strip_0x a))
                     @ '' chars, expected 40'')))
   \<and> (length (strip_0x a) = 40 \<longrightarrow>
      (\<exists>bs. hexAddressToUint8Array a = Inr bs \<and> length bs = 31
         \<and> (\<forall>i<20. bs ! i = toUint8 (parseInt16 [strip_0x a ! (2 * i), strip_0x a ! (2 * i + 1)]))
         \<and> (\<forall>i<20. \<forall>hi lo. hex_digit_val (strip_0x a ! (2 * i)) = Some hi
                \<and> hex_digit_val (strip_0x a ! (2 * i + 1)) = Some lo
              \<longrightarrow> bs ! i = of_nat (16 * hi + lo) \<and> unat (bs ! i) = 16 * hi + lo)
         \<and> (\<forall>i. 20 \<le> i \<and> i < 31 \<longrightarrow> bs ! i = 0)))"
proof (intro conjI impI)
  assume "length (strip_0x a) \<noteq> 40"
  then show "hexAddressToUint8Array a =
        Inl (Error (''Invalid address length: '' @ nat_toString (length (strip_0x a))
                     @ '' chars, expected 40''))"
    by (simp add: hexAddressToUint8Array_def)
next
  assume len: "length (strip_0x a) = 40"
  let ?s = "strip_0x a"
  let ?f = "\<lambda>i. toUint8 (parseInt16 (substring ?s (i * 2) (i * 2 + 2)))"
  let ?bs = "foldl (\<lambda>addressBytes i. addressBytes[i := ?f i]) (replicate 31 0) [0..<20]"
  have res: "hexAddressToUint8Array a = Inr ?bs"
    unfolding hexAddressToUint8Array_def Let_def len by (simp only: simp_thms if_False)
  have blen: "length ?bs = 31"
    by (simp only: foldl_update_length length_replicate)
  have nth: "?bs ! k = (if k < 20 then ?f k else 0)" if "k < 31" for k
  proof -
    have "k < length (replicate 31 (0::byte))" using that by (simp only: length_replicate)
    from foldl_update_nth [OF this, of ?f 20]
    show ?thesis using that by (simp only: nth_replicate)
  qed
  have sub: "substring ?s (i * 2) (i * 2 + 2) = [?s ! (2 * i), ?s ! (2 * i + 1)]" if "i < 20" for i
    using len that by (rule substring_pair)
  have first: "\<forall>i<20. ?bs ! i = toUint8 (parseInt16 [?s ! (2 * i), ?s ! (2 * i + 1)])"
  proof (intro allI impI)
    fix i :: nat
    assume i: "i < 20"
    then have "i < 31" by simp
    from nth [OF this] i sub [OF i]
    show "?bs ! i = toUint8 (parseInt16 [?s ! (2 * i), ?s ! (2 * i + 1)])"
      by (simp only: if_True)
  qed
  have hexes: "\<forall>i<20. \<forall>hi lo. hex_digit_val (?s ! (2 * i)) = Some hi
                \<and> hex_digit_val (?s ! (2 * i + 1)) = Some lo
              \<longrightarrow> ?bs ! i = of_nat (16 * hi + lo) \<and> unat (?bs ! i) = 16 * hi + lo"
  proof (intro allI impI)
    fix i hi lo
    assume i: "i < (20::nat)"
      and h: "hex_digit_val (?s ! (2 * i)) = Some hi \<and> hex_digit_val (?s ! (2 * i + 1)) = Some lo"
    from h have p: "parseInt16 [?s ! (2 * i), ?s ! (2 * i + 1)] = Some (int (16 * hi + lo))"
      by (simp add: parseInt16_two_hex)
    from h have "hi < 16" "lo < 16" by (auto dest: hex_digit_val_bound)
    then have b: "16 * hi + lo < 256" by simp
    from first i have "?bs ! i = toUint8 (parseInt16 [?s ! (2 * i), ?s ! (2 * i + 1)])"
      by blast
    then have e: "?bs ! i = of_nat (16 * hi + lo)"
      unfolding p by (simp add: toUint8_def)
    have u: "unat (of_nat (16 * hi + lo) :: byte) = 16 * hi + lo"
      unfolding unat_of_nat using b by simp
    show "?bs ! i = of_nat (16 * hi + lo) \<and> unat (?bs ! i) = 16 * hi + lo"
      unfolding e using u by (simp only: simp_thms)
  qed
  have zeros: "\<forall>i. 20 \<le> i \<and> i < 31 \<longrightarrow> ?bs ! i = 0"
  proof (intro allI impI)
    fix i :: nat
    assume i: "20 \<le> i \<and> i < 31"
    then have "\<not> i < 20" "i < 31" by simp_all
    with nth [of i] show "?bs ! i = 0" by (simp only: if_False)
  qed
  show "\<exists>bs. hexAddressToUint8Array a = Inr bs \<and> length bs = 31
         \<and> (\<forall>i<20. bs ! i = toUint8 (parseInt16 [strip_0x a ! (2 * i), strip_0x a ! (2 * i + 1)]))
         \<and> (\<forall>i<20. \<forall>hi lo. hex_digit_val (strip_0x a ! (2 * i)) = Some hi
                \<and> hex_digit_val (strip_0x a ! (2 * i + 1)) = Some lo
              \<longrightarrow> bs ! i = of_nat (16 * hi + lo) \<and> unat (bs ! i) = 16 * hi + lo)
         \<and> (\<forall>i. 20 \<le> i \<and> i < 31 \<longrightarrow> bs ! i = 0)"
    by (intro exI [of _ ?bs] conjI res blen first hexes zeros)
qed

lemma vault_address_bytes:
  "hexAddressToUint8Array (js_str ''0x009cbB8f91d392856Cb880d67c806Aa731E3d686'') =
     Inr [0x00, 0x9c, 0xbb, 0x8f, 0x91, 0xd3, 0x92, 0x85, 0x6c, 0xb8, 0x80, 0xd6, 0x7c, 0x80,
          0x6a, 0xa7, 0x31, 0xe3, 0xd6, 0x86, 0, 0, 0, 0, 0, 0, 0, 0, 0, 0, 0]"
  by code_simp

theorem hexAddressToUint8Array_shape_witness:
  "length (strip_0x (js_str ''0x009cbB8f91d392856Cb880d67c806Aa731E3d686'')) = 40
   \<and> (\<exists>bs. hexAddressToUint8Array (js_str ''0x009cbB8f91d392856Cb880d67c806Aa731E3d686'') = Inr bs
         \<and> length bs = 31 \<and> bs ! 1 = 0x9c \<and> bs ! 20 = 0 \<and> bs ! 30 = 0)
   \<and> length (strip_0x (js_str ''0x009c'')) \<noteq> 40
   \<and> hexAddressToUint8Array (js_str ''0x009c'') =
        Inl (Error ''Invalid address length: 4 chars, expected 40'')"
proof -
  let ?a = "js_str ''0x009cbB8f91d392856Cb880d67c806Aa731E3d686''"
  have s: "strip_0x ?a = js_str ''009cbB8f91d392856Cb880d67c806Aa731E3d686''"
    by (simp add: strip_0x_def startsWith_def substring_from_def js_str_def)
  have len: "length (strip_0x ?a) = 40"
    unfolding s by (simp add: js_str_def)
  have hi: "hex_digit_val (strip_0x ?a ! (2 * 1)) = Some 9"
    unfolding s by (simp add: js_str_def hex_digit_val_def)
  have lo: "hex_digit_val (strip_0x ?a ! (2 * 1 + 1)) = Some 12"
    unfolding s by (simp add: js_str_def hex_digit_val_def)
  from hexAddressToUint8Array_shape [of ?a] len
  obtain bs where bs: "hexAddressToUint8Array ?a = Inr bs" "length bs = 31"
    and hex: "\<forall>i<20. \<forall>hi lo. hex_digit_val (strip_0x ?a ! (2 * i)) = Some hi
                \<and> hex_digit_val (strip_0x ?a ! (2 * i + 1)) = Some lo
              \<longrightarrow> bs ! i = of_nat (16 * hi + lo) \<and> unat (bs ! i) = 16 * hi + lo"
    and zero: "\<forall>i. 20 \<le> i \<and> i < 31 \<longrightarrow> bs ! i = 0"
    by blast
  have "(1::nat) < 20" by simp
  with hex hi lo have "bs ! 1 = of_nat (16 * 9 + 12)" by blast
  then have b1: "bs ! 1 = 0x9c" by simp
  from zero have b20: "bs ! 20 = 0" and b30: "bs ! 30 = 0" by simp_all
  have s2: "strip_0x (js_str ''0x009c'') = js_str ''009c''"
    by (simp add: strip_0x_def startsWith_def substring_from_def js_str_def)
  have len2: "length (strip_0x (js_str ''0x009c'')) \<noteq> 40"
    unfolding s2 by (simp add: js_str_def)
  with hexAddressToUint8Array_shape [of "js_str ''0x009c''"]
  have "hexAddressToUint8Array (js_str ''0x009c'') =
        Inl (Error (''Invalid address length: ''
               @ nat_toString (length (strip_0x (js_str ''0x009c''))) @ '' chars, expected 40''))"
    by blast
  then have thrown: "hexAddressToUint8Array (js_str ''0x009c'') =
        Inl (Error ''Invalid address length: 4 chars, expected 40'')"
    unfolding s2 by (simp add: js_str_def nat_toString.simps digit_char_def)
  from len bs b1 b20 b30 len2 thrown show ?thesis by blast
qed

section \<open>Properties of createMessageArrays\<close>

lemma set_index_length [simp]: "length (set_index a i v h) = length h"
  by (simp add: set_index_def)

lemma stores_length:
  "length (foldl (\<lambda>h' i. set_index (f i) (g i) (w i) h') h is) = length h"
  by (induction "is" arbitrary: h) simp_all

lemma Uint8Array_from_stores:
  "k \<le> length bs \<Longrightarrow> length zs = length bs \<Longrightarrow>
   foldl (\<lambda>h' i. set_index \<lparr>buffer = length h, byteOffset = 0, array_length = length bs\<rparr> i (bs ! i) h')
     (h @ [zs]) [0..<k] = h @ [take k bs @ drop k zs]"
proof (induction k)
  case 0
  then show ?case by simp
next
  case (Suc k)
  then have k: "k < length bs" by simp
  have "(take k bs @ drop k zs)[k := bs ! k] = take (Suc k) bs @ drop (Suc k) zs"
    using k Suc.prems(2)
    by (simp add: take_Suc_conv_app_nth list_update_append Cons_nth_drop_Suc [symmetric]
          del: Cons_nth_drop_Suc)
  with Suc k show ?case by (simp add: set_index_def)
qed

lemma Uint8Array_from_eq:
  "Uint8Array_from bs h =
     (\<lparr>buffer = length h, byteOffset = 0, array_length = length bs\<rparr>, h @ [bs])"
  using Uint8Array_from_stores [of "length bs" bs "replicate (length bs) 0" h]
  by (simp add: Uint8Array_from_def new_Uint8Array_def)

lemma fill_fresh:
  "fill \<lparr>buffer = length h, byteOffset = 0, array_length = n\<rparr> 0 (h @ [replicate n 0])
     = h @ [replicate n 0]"
proof -
  have "k \<le> n \<Longrightarrow>
     foldl (\<lambda>h' i. set_index \<lparr>buffer = length h, byteOffset = 0, array_length = n\<rparr> i 0 h')
       (h @ [replicate n 0]) [0..<k] = h @ [replicate n 0]" for k
  proof (induction k)
    case 0
    then show ?case by simp
  next
    case (Suc k)
    have "(replicate n (0::byte))[k := 0] = replicate n 0"
      using Suc.prems by (auto simp: list_eq_iff_nth_eq nth_list_update)
    with Suc show ?case by (simp add: set_index_def)
  qed
  from this [of n] show ?thesis by (simp add: fill_def)
qed

lemma push_zero_arrays:
  "foldl push_zero_array (m, h) [0..<k] =
     (m @ map (\<lambda>b. \<lparr>buffer = b, byteOffset = 0, array_length = 31\<rparr>) [length h..<length h + k],
      h @ replicate k (replicate 31 0))"
proof (induction k)
  case 0
  then show ?case by simp
next
  case (Suc k)
  have "fill \<lparr>buffer = length h + k, byteOffset = 0, array_length = 31\<rparr> 0
          ((h @ replicate k (replicate 31 0)) @ [replicate 31 0])
          = (h @ replicate k (replicate 31 0)) @ [replicate 31 0]"
    using fill_fresh [of "h @ replicate k (replicate 31 0)" 31] by simp
  with Suc show ?case
    by (simp add: push_zero_array_def new_Uint8Array_def replicate_append_same)
qed

lemma createMessageArrays_unfold:
  "createMessageArrays d c vd h =
     ([d, c] @ map (\<lambda>b. \<lparr>buffer = b, byteOffset = 0, array_length = 31\<rparr>) [length h..<length h + 5],
      foldl (\<lambda>h' i. set_index (([d, c] @ map (\<lambda>b. \<lparr>buffer = b, byteOffset = 0, array_length = 31\<rparr>)
                                            [length h..<length h + 5]) ! i) 30 (of_nat (i + 1)) h')
        (h @ replicate 5 (replicate 31 0)) [0..<7])"
  unfolding createMessageArrays_def push_zero_arrays by simp


lemma set_index_buffer_length: "length (set_index a i v h ! b) = length (h ! b)"
proof (cases "buffer a < length h")
  case True
  then show ?thesis by (cases "b = buffer a") (simp_all add: set_index_def)
next
  case False
  then have "h[buffer a := x] = h" for x by (simp add: list_update_beyond)
  then show ?thesis by (simp add: set_index_def)
qed

lemma set_index_other:
  "(b, p) \<noteq> (buffer a, byteOffset a + i) \<Longrightarrow> set_index a i v h ! b ! p = h ! b ! p"
proof (cases "buffer a < length h")
  case True
  assume "(b, p) \<noteq> (buffer a, byteOffset a + i)"
  with True show ?thesis by (cases "b = buffer a") (auto simp: set_index_def)
next
  case False
  then have "h[buffer a := x] = h" for x by (simp add: list_update_beyond)
  then show ?thesis by (simp add: set_index_def)
qed

lemma set_index_same:
  "valid_array h a \<Longrightarrow> i < array_length a \<Longrightarrow>
   set_index a i v h ! buffer a ! (byteOffset a + i) = v"
  by (simp add: set_index_def valid_array_def)

lemma stamp_buffer_length:
  "length (foldl (\<lambda>h' i. set_index (m ! i) 30 (of_nat (i + 1)) h') h [0..<k] ! b)
     = length (h ! b)"
proof (induction k)
  case 0
  then show ?case by simp
next
  case (Suc k)
  let ?hk = "foldl (\<lambda>h' i. set_index (m ! i) 30 (of_nat (i + 1)) h') h [0..<k]"
  have "length (set_index (m ! k) 30 (of_nat (k + 1)) ?hk ! b) = length (?hk ! b)"
    by (rule set_index_buffer_length)
  with Suc show ?case by simp
qed

lemma stamp_other:
  "(b, p) \<notin> (\<lambda>a. (buffer a, byteOffset a + 30)) ` set (take k m) \<Longrightarrow> k \<le> length m \<Longrightarrow>
   foldl (\<lambda>h' i. set_index (m ! i) 30 (of_nat (i + 1)) h') h [0..<k] ! b ! p = h ! b ! p"
proof (induction k)
  case 0
  then show ?case by simp
next
  case (Suc k)
  let ?hk = "foldl (\<lambda>h' i. set_index (m ! i) 30 (of_nat (i + 1)) h') h [0..<k]"
  from Suc.prems have ne: "(b, p) \<noteq> (buffer (m ! k), byteOffset (m ! k) + 30)"
    and rest: "(b, p) \<notin> (\<lambda>a. (buffer a, byteOffset a + 30)) ` set (take k m)"
    by (auto simp: take_Suc_conv_app_nth)
  from Suc.IH [OF rest] Suc.prems(2) have ih: "?hk ! b ! p = h ! b ! p" by simp
  have "set_index (m ! k) 30 (of_nat (k + 1)) ?hk ! b ! p = ?hk ! b ! p"
    using ne by (rule set_index_other)
  with ih show ?case by simp
qed

lemma stamp_member:
  "distinct (map (\<lambda>a. (buffer a, byteOffset a + 30)) m) \<Longrightarrow> k \<le> length m \<Longrightarrow> i < k \<Longrightarrow>
   valid_array h (m ! i) \<Longrightarrow> array_length (m ! i) = 31 \<Longrightarrow>
   foldl (\<lambda>h' i. set_index (m ! i) 30 (of_nat (i + 1)) h') h [0..<k]
     ! buffer (m ! i) ! (byteOffset (m ! i) + 30) = of_nat (i + 1)"
proof (induction k)
  case 0
  then show ?case by simp
next
  case (Suc k)
  let ?cell = "\<lambda>a. (buffer a, byteOffset a + 30)"
  let ?hk = "foldl (\<lambda>h' i. set_index (m ! i) 30 (of_nat (i + 1)) h') h [0..<k]"
  have len: "length ?hk = length h" by (rule stores_length)
  have blen: "length (?hk ! b) = length (h ! b)" for b by (rule stamp_buffer_length)
  have neq: "?cell (m ! a) \<noteq> ?cell (m ! b)" if "a < length m" "b < length m" "a \<noteq> b" for a b
    using Suc.prems(1) that by (simp add: distinct_conv_nth)
  show ?case
  proof (cases "i = k")
    case True
    from Suc.prems(4,5) True
    have "valid_array ?hk (m ! k)"
      using len blen [of "buffer (m ! k)"] by (simp add: valid_array_def)
    from set_index_same [OF this, of 30 "of_nat (k + 1)"] True Suc.prems(5)
    show ?thesis by simp
  next
    case False
    with Suc.prems have ik: "i < k" by simp
    with Suc.prems(2) have ne: "?cell (m ! i) \<noteq> ?cell (m ! k)"
      using neq [of i k] by simp
    from Suc.IH [OF Suc.prems(1) _ ik Suc.prems(4,5)] Suc.prems(2)
    have ih: "?hk ! buffer (m ! i) ! (byteOffset (m ! i) + 30) = of_nat (i + 1)"
      by simp
    have "set_index (m ! k) 30 (of_nat (k + 1)) ?hk ! buffer (m ! i) ! (byteOffset (m ! i) + 30)
            = ?hk ! buffer (m ! i) ! (byteOffset (m ! i) + 30)"
      using ne by (rule set_index_other)
    with ih show ?thesis by simp
  qed
qed

lemma elements_nth:
  "valid_array h a \<Longrightarrow> p < array_length a \<Longrightarrow>
   elements h a ! p = h ! buffer a ! (byteOffset a + p)"
  by (simp add: elements_def valid_array_def)

lemma elements_length:
  "valid_array h a \<Longrightarrow> length (elements h a) = array_length a"
  by (auto simp: elements_def valid_array_def)


lemma createMessageArrays_general:
  assumes vd: "valid_array h d" and vc: "valid_array h c"
    and ld: "array_length d = 31" and lc: "array_length c = 31"
    and apart: "buffer d = buffer c \<longrightarrow> byteOffset d \<noteq> byteOffset c"
  shows "\<exists>m h'. createMessageArrays d c x h = (m, h')
     \<and> length m = 7 \<and> m ! 0 = d \<and> m ! 1 = c
     \<and> (\<forall>i<7. valid_array h' (m ! i) \<and> array_length (m ! i) = 31
                \<and> length (elements h' (m ! i)) = 31
                \<and> elements h' (m ! i) ! 30 = of_nat (i + 1))
     \<and> (\<forall>i. 2 \<le> i \<and> i < 7 \<longrightarrow> elements h' (m ! i) = replicate 30 0 @ [of_nat (i + 1)])
     \<and> (buffer d \<noteq> buffer c \<longrightarrow>
          elements h' d = (elements h d)[30 := 1] \<and> elements h' c = (elements h c)[30 := 2])"
proof -
  let ?n = "length h"
  let ?new = "\<lambda>b. \<lparr>buffer = b, byteOffset = 0, array_length = 31\<rparr>"
  let ?cell = "\<lambda>a. (buffer a, byteOffset a + 30)"
  define m where "m = [d, c] @ map ?new [?n..<?n + 5]"
  define h1 where "h1 = h @ replicate 5 (replicate 31 (0::byte))"
  define h' where "h' = foldl (\<lambda>h' i. set_index (m ! i) 30 (of_nat (i + 1)) h') h1 [0..<7]"
  have res: "createMessageArrays d c x h = (m, h')"
    unfolding m_def h1_def h'_def by (rule createMessageArrays_unfold)
  have lm: "length m = 7" by (simp add: m_def)
  have m0: "m ! 0 = d" and m1: "m ! 1 = c" by (simp_all add: m_def)
  have bd: "buffer d < ?n" and bc: "buffer c < ?n"
    using vd vc by (simp_all add: valid_array_def)
  have mi: "m ! i = ?new (?n + (i - 2))" if "2 \<le> i" "i < 7" for i
  proof -
    have a: "[?n..<?n + 5] ! (i - 2) = ?n + (i - 2)"
      by (rule nth_upt) (use that in simp)
    have e: "length [d, c] + (i - 2) = i" using that by simp
    have "m ! (length [d, c] + (i - 2)) = map ?new [?n..<?n + 5] ! (i - 2)"
      unfolding m_def by (rule nth_append_length_plus)
    then have "m ! i = map ?new [?n..<?n + 5] ! (i - 2)" unfolding e .
    also have "\<dots> = ?new ([?n..<?n + 5] ! (i - 2))"
      by (rule nth_map) (use that in simp)
    finally show ?thesis unfolding a .
  qed
  have l1: "length h1 = ?n + 5" by (simp add: h1_def)
  have old: "h1 ! b = h ! b" if "b < ?n" for b
    using that by (simp add: h1_def nth_append)
  have fresh: "h1 ! (?n + j) = replicate 31 0" if "j < 5" for j
  proof -
    have "h1 ! (?n + j) = replicate 5 (replicate 31 0) ! j"
      unfolding h1_def by (rule nth_append_length_plus)
    with that show ?thesis by simp
  qed
  have valid1: "valid_array h1 (m ! i) \<and> array_length (m ! i) = 31" if "i < 7" for i
  proof -
    consider "i = 0" | "i = 1" | "2 \<le> i" by linarith
    then show ?thesis
    proof cases
      case 1
      with vd ld old [OF bd] l1 m0 show ?thesis by (simp add: valid_array_def)
    next
      case 2
      with vc lc old [OF bc] l1 m1 show ?thesis by (simp add: valid_array_def)
    next
      case 3
      have "i - 2 < 5" using that by simp
      from fresh [OF this] this l1 show ?thesis
        unfolding mi [OF 3 that] by (simp add: valid_array_def)
    qed
  qed
  have cells: "?cell ` set m = {?cell d, ?cell c} \<union> (\<lambda>k. (k, 30)) ` {?n..<?n + 5}"
  proof -
    have "set m = {d, c} \<union> ?new ` {?n..<?n + 5}"
      unfolding m_def by (simp del: upt_Suc)
    then show ?thesis by (simp add: image_Un image_image)
  qed
  have dist: "distinct (map ?cell m)"
  proof -
    have "map ?cell m = [?cell d, ?cell c] @ map (\<lambda>k. (k, 30)) [?n..<?n + 5]"
      unfolding m_def by (simp del: upt_Suc)
    moreover have "distinct (map (\<lambda>k. (k, 30::nat)) [?n..<?n + 5])"
      by (simp add: distinct_map inj_on_def del: upt_Suc)
    moreover have "?cell d \<noteq> ?cell c" using apart by auto
    moreover have "?cell d \<notin> set (map (\<lambda>k. (k, 30)) [?n..<?n + 5])"
      "?cell c \<notin> set (map (\<lambda>k. (k, 30)) [?n..<?n + 5])"
      using bd bc by (auto simp del: upt_Suc)
    ultimately show ?thesis by (simp del: upt_Suc)
  qed
  have len': "length h' = length h1" unfolding h'_def by (rule stores_length)
  have blen': "length (h' ! b) = length (h1 ! b)" for b
    unfolding h'_def by (rule stamp_buffer_length)
  have valid': "valid_array h' (m ! i)" if "i < 7" for i
    using valid1 [OF that] len' blen' [of "buffer (m ! i)"] by (simp add: valid_array_def)
  have stamped: "h' ! buffer (m ! i) ! (byteOffset (m ! i) + 30) = of_nat (i + 1)"
    if "i < 7" for i
    unfolding h'_def
    using stamp_member [OF dist, of 7 i h1] that valid1 [OF that] lm by simp
  have untouched: "h' ! b ! p = h1 ! b ! p" if "(b, p) \<notin> ?cell ` set m" for b p
    unfolding h'_def using stamp_other [of b p 7 m h1] that lm by simp
  have lastb: "elements h' (m ! i) ! 30 = of_nat (i + 1)" if "i < 7" for i
    using elements_nth [OF valid' [OF that], of 30] valid1 [OF that] stamped [OF that] by simp
  have elen: "length (elements h' (m ! i)) = 31" if "i < 7" for i
    using elements_length [OF valid' [OF that]] valid1 [OF that] by simp
  have p1: "\<forall>i<7. valid_array h' (m ! i) \<and> array_length (m ! i) = 31
                \<and> length (elements h' (m ! i)) = 31
                \<and> elements h' (m ! i) ! 30 = of_nat (i + 1)"
    using valid' valid1 elen lastb by blast
  have p2: "\<forall>i. 2 \<le> i \<and> i < 7 \<longrightarrow> elements h' (m ! i) = replicate 30 0 @ [of_nat (i + 1)]"
  proof (intro allI impI)
    fix i :: nat
    assume i: "2 \<le> i \<and> i < 7"
    then have i2: "2 \<le> i" and i7: "i < 7" and i5: "i - 2 < 5" by auto
    have bi: "buffer (m ! i) = ?n + (i - 2)" and oi: "byteOffset (m ! i) = 0"
      unfolding mi [OF i2 i7] by simp_all
    have cell_p: "elements h' (m ! i) ! p = (replicate 30 0 @ [of_nat (i + 1)]) ! p"
      if p: "p < 31" for p
    proof (cases "p = 30")
      case True
      with lastb [OF i7] show ?thesis by (simp add: nth_append)
    next
      case False
      with p have p30: "p < 30" by simp
      have "(?n + (i - 2), p) \<notin> ?cell ` set m"
        unfolding cells using bd bc p30 by auto
      from untouched [OF this] fresh [OF i5] p
      have "h' ! (?n + (i - 2)) ! p = 0" by simp
      moreover have "elements h' (m ! i) ! p = h' ! (?n + (i - 2)) ! p"
        using elements_nth [OF valid' [OF i7], of p] valid1 [OF i7] p bi oi by simp
      ultimately show ?thesis using p30 by (simp add: nth_append)
    qed
    show "elements h' (m ! i) = replicate 30 0 @ [of_nat (i + 1)]"
      using elen [OF i7] cell_p by (simp add: list_eq_iff_nth_eq)
  qed
  have p3: "buffer d \<noteq> buffer c \<longrightarrow>
          elements h' d = (elements h d)[30 := 1] \<and> elements h' c = (elements h c)[30 := 2]"
  proof
    assume ne: "buffer d \<noteq> buffer c"
    have frame: "elements h' (m ! i) = (elements h (m ! i))[30 := of_nat (i + 1)]"
      if i: "i < 2" for i
    proof -
      from i have i7: "i < 7" by simp
      from i have "i = 0 \<or> i = 1" by auto
      with m0 m1 have dc: "m ! i = d \<or> m ! i = c" by auto
      then have vi: "valid_array h (m ! i)" and bi: "buffer (m ! i) < ?n"
        using vd vc bd bc by auto
      have li: "array_length (m ! i) = 31" using valid1 [OF i7] by simp
      have cell_p: "elements h' (m ! i) ! p = (elements h (m ! i))[30 := of_nat (i + 1)] ! p"
        if p: "p < 31" for p
      proof (cases "p = 30")
        case True
        with lastb [OF i7] elements_length [OF vi] li show ?thesis by simp
      next
        case False
        have "(buffer (m ! i), byteOffset (m ! i) + p) \<notin> ?cell ` set m"
          unfolding cells using bd bc ne False dc by auto
        from untouched [OF this] old [OF bi]
        have "h' ! buffer (m ! i) ! (byteOffset (m ! i) + p)
                = h ! buffer (m ! i) ! (byteOffset (m ! i) + p)" by simp
        with elements_nth [OF valid' [OF i7], of p] elements_nth [OF vi, of p] li p False
        show ?thesis by simp
      qed
      show ?thesis
        using elen [OF i7] elements_length [OF vi] li cell_p by (simp add: list_eq_iff_nth_eq)
    qed
    from frame [of 0] frame [of 1] m0 m1
    show "elements h' d = (elements h d)[30 := 1] \<and> elements h' c = (elements h c)[30 := 2]"
      by simp
  qed
  show ?thesis
    by (intro exI [of _ m] exI [of _ h'] conjI res lm m0 m1 p1 p2 p3)
qed


lemma Uint8Array_from_valid:
  "valid_array (h @ [bs] @ g) \<lparr>buffer = length h, byteOffset = 0, array_length = length bs\<rparr>"
  and Uint8Array_from_elements:
  "elements (h @ [bs] @ g) \<lparr>buffer = length h, byteOffset = 0, array_length = length bs\<rparr> = bs"
  by (simp_all add: valid_array_def elements_def)

text \<open>
  The elements that \<open>chainIdToUint8Array\<close> produces for the chain identifier 10004 of
  \<^verbatim>\<open>main\<close>: the identifier in little-endian order, zeros, and 2 as the last byte.
\<close>

lemma chainIdToUint8Array_10004:
  "chainIdToUint8Array 10004 =
     [0x14, 0x27, 0, 0, 0, 0, 0, 0, 0, 0, 0, 0, 0, 0, 0, 0, 0, 0, 0, 0, 0, 0, 0, 0, 0, 0, 0, 0,
      0, 0, 2]"
  by code_simp

text \<open>
  Two arrays that view the same bytes of one buffer share their last byte: the second
  loop stores 1 and then 2 into it, and both arrays end with 2.
\<close>

lemma createMessageArrays_views_of_same_bytes:
  "map (\<lambda>a. elements (snd (createMessageArrays
                   \<lparr>buffer = 0, byteOffset = 0, array_length = 31\<rparr>
                   \<lparr>buffer = 0, byteOffset = 0, array_length = 31\<rparr> () [replicate 31 0])) a ! 30)
     (fst (createMessageArrays
             \<lparr>buffer = 0, byteOffset = 0, array_length = 31\<rparr>
             \<lparr>buffer = 0, byteOffset = 0, array_length = 31\<rparr> () [replicate 31 0]))
     = [2, 2, 3, 4, 5, 6, 7]"
  unfolding createMessageArrays_unfold
  by (simp add: set_index_def elements_def upt_rec nth_append)

text \<open>
  Claim C10. \<open>createMessageArrays\<close> is called with two arrays of 31 elements that
  have a buffer each: the arrays that \<open>hexAddressToUint8Array\<close> and
  \<open>chainIdToUint8Array\<close> have just built. For every pair of 31-byte contents of these
  two arrays, in every heap, it returns exactly 7 arrays of 31 elements each: element 0
  is the donation-address array and element 1 is the chain-id array, both with their
  first 30 bytes as they were, elements 2 to 6 are all zero except their last byte, and
  the last byte of element \<open>i\<close> is \<open>i + 1\<close>. The same holds for any two arrays of 31
  elements in the heap that do not start at the same byte of the same buffer; when
  their buffers differ, the first 30 bytes of both are as they were.
\<close>

theorem createMessageArrays_seven_numbered_arrays:
  "(length vault_bytes = 31 \<and> length chain_bytes = 31 \<longrightarrow>
      (\<exists>d h1 c h2 m h'.
           Uint8Array_from vault_bytes h = (d, h1) \<and> Uint8Array_from chain_bytes h1 = (c, h2)
         \<and> elements h2 d = vault_bytes \<and> elements h2 c = chain_bytes
         \<and> main_createMessageArrays vault_bytes chain_bytes x h = (m, h')
         \<and> createMessageArrays d c x h2 = (m, h')
         \<and> length m = 7 \<and> m ! 0 = d \<and> m ! 1 = c
         \<and> (\<forall>i<7. valid_array h' (m ! i) \<and> array_length (m ! i) = 31
                    \<and> length (elements h' (m ! i)) = 31
                    \<and> elements h' (m ! i) ! 30 = of_nat (i + 1))
         \<and> (\<forall>i. 2 \<le> i \<and> i < 7 \<longrightarrow>
               elements h' (m ! i) = replicate 30 0 @ [of_nat (i + 1)])
         \<and> elements h' (m ! 0) = vault_bytes[30 := 1]
         \<and> elements h' (m ! 1) = chain_bytes[30 := 2]))
   \<and> (valid_array g a \<and> valid_array g b \<and> array_length a = 31 \<and> array_length b = 31
        \<and> (buffer a = buffer b \<longrightarrow> byteOffset a \<noteq> byteOffset b) \<longrightarrow>
      (\<exists>m h'. createMessageArrays a b x g = (m, h')
         \<and> length m = 7 \<and> m ! 0 = a \<and> m ! 1 = b
         \<and> (\<forall>i<7. valid_array h' (m ! i) \<and> array_length (m ! i) = 31
                    \<and> length (elements h' (m ! i)) = 31
                    \<and> elements h' (m ! i) ! 30 = of_nat (i + 1))
         \<and> (\<forall>i. 2 \<le> i \<and> i < 7 \<longrightarrow>
               elements h' (m ! i) = replicate 30 0 @ [of_nat (i + 1)])
         \<and> (buffer a \<noteq> buffer b \<longrightarrow>
              elements h' a = (elements g a)[30 := 1]
              \<and> elements h' b = (elements g b)[30 := 2])))"
proof (intro conjI impI)
  assume len: "length vault_bytes = 31 \<and> length chain_bytes = 31"
  let ?d = "\<lparr>buffer = length h, byteOffset = 0, array_length = 31\<rparr>"
  let ?c = "\<lparr>buffer = length h + 1, byteOffset = 0, array_length = 31\<rparr>"
  let ?h1 = "h @ [vault_bytes]"
  let ?h2 = "?h1 @ [chain_bytes]"
  have d: "Uint8Array_from vault_bytes h = (?d, ?h1)"
    using len by (simp add: Uint8Array_from_eq)
  have c: "Uint8Array_from chain_bytes ?h1 = (?c, ?h2)"
    using len by (simp add: Uint8Array_from_eq)
  have vd: "valid_array ?h2 ?d" and ed: "elements ?h2 ?d = vault_bytes"
    using Uint8Array_from_valid [of h vault_bytes "[chain_bytes]"]
      Uint8Array_from_elements [of h vault_bytes "[chain_bytes]"] len by simp_all
  have vc: "valid_array ?h2 ?c" and ec: "elements ?h2 ?c = chain_bytes"
    using Uint8Array_from_valid [of ?h1 chain_bytes "[]"]
      Uint8Array_from_elements [of ?h1 chain_bytes "[]"] len by simp_all
  have ne: "buffer ?d \<noteq> buffer ?c" by simp
  then have apart: "buffer ?d = buffer ?c \<longrightarrow> byteOffset ?d \<noteq> byteOffset ?c" by simp
  have ld: "array_length ?d = 31" and lc: "array_length ?c = 31" by simp_all
  from createMessageArrays_general [OF vd vc ld lc apart, of x]
  obtain m h' where r: "createMessageArrays ?d ?c x ?h2 = (m, h')"
    and m: "length m = 7" "m ! 0 = ?d" "m ! 1 = ?c"
    and p1: "\<forall>i<7. valid_array h' (m ! i) \<and> array_length (m ! i) = 31
                    \<and> length (elements h' (m ! i)) = 31
                    \<and> elements h' (m ! i) ! 30 = of_nat (i + 1)"
    and p2: "\<forall>i. 2 \<le> i \<and> i < 7 \<longrightarrow> elements h' (m ! i) = replicate 30 0 @ [of_nat (i + 1)]"
    and p3: "buffer ?d \<noteq> buffer ?c \<longrightarrow>
          elements h' ?d = (elements ?h2 ?d)[30 := 1]
          \<and> elements h' ?c = (elements ?h2 ?c)[30 := 2]"
    by blast
  have main: "main_createMessageArrays vault_bytes chain_bytes x h = (m, h')"
    unfolding main_createMessageArrays_def d using c r by simp
  from p3 ne ed ec m have f0: "elements h' (m ! 0) = vault_bytes[30 := 1]"
    and f1: "elements h' (m ! 1) = chain_bytes[30 := 2]"
    by simp_all
  show "\<exists>d h1 c h2 m h'.
           Uint8Array_from vault_bytes h = (d, h1) \<and> Uint8Array_from chain_bytes h1 = (c, h2)
         \<and> elements h2 d = vault_bytes \<and> elements h2 c = chain_bytes
         \<and> main_createMessageArrays vault_bytes chain_bytes x h = (m, h')
         \<and> createMessageArrays d c x h2 = (m, h')
         \<and> length m = 7 \<and> m ! 0 = d \<and> m ! 1 = c
         \<and> (\<forall>i<7. valid_array h' (m ! i) \<and> array_length (m ! i) = 31
                    \<and> length (elements h' (m ! i)) = 31
                    \<and> elements h' (m ! i) ! 30 = of_nat (i + 1))
         \<and> (\<forall>i. 2 \<le> i \<and> i < 7 \<longrightarrow>
               elements h' (m ! i) = replicate 30 0 @ [of_nat (i + 1)])
         \<and> elements h' (m ! 0) = vault_bytes[30 := 1]
         \<and> elements h' (m ! 1) = chain_bytes[30 := 2]"
    by (intro exI [of _ ?d] exI [of _ ?h1] exI [of _ ?c] exI [of _ ?h2] exI [of _ m]
          exI [of _ h'] conjI d c ed ec main r m p1 p2 f0 f1)
next
  assume "valid_array g a \<and> valid_array g b \<and> array_length a = 31 \<and> array_length b = 31
        \<and> (buffer a = buffer b \<longrightarrow> byteOffset a \<noteq> byteOffset b)"
  then show "\<exists>m h'. createMessageArrays a b x g = (m, h')
         \<and> length m = 7 \<and> m ! 0 = a \<and> m ! 1 = b
         \<and> (\<forall>i<7. valid_array h' (m ! i) \<and> array_length (m ! i) = 31
                    \<and> length (elements h' (m ! i)) = 31
                    \<and> elements h' (m ! i) ! 30 = of_nat (i + 1))
         \<and> (\<forall>i. 2 \<le> i \<and> i < 7 \<longrightarrow>
               elements h' (m ! i) = replicate 30 0 @ [of_nat (i + 1)])
         \<and> (buffer a \<noteq> buffer b \<longrightarrow>
              elements h' a = (elements g a)[30 := 1]
              \<and> elements h' b = (elements g b)[30 := 2])"
    using createMessageArrays_general [of g a b x] by blast
qed

theorem createMessageArrays_seven_numbered_arrays_witness:
  "hexAddressToUint8Array (js_str ''0x009cbB8f91d392856Cb880d67c806Aa731E3d686'') =
     Inr [0x00, 0x9c, 0xbb, 0x8f, 0x91, 0xd3, 0x92, 0x85, 0x6c, 0xb8, 0x80, 0xd6, 0x7c, 0x80,
          0x6a, 0xa7, 0x31, 0xe3, 0xd6, 0x86, 0, 0, 0, 0, 0, 0, 0, 0, 0, 0, 0]
   \<and> length [0x00, 0x9c, 0xbb, 0x8f, 0x91, 0xd3, 0x92, 0x85, 0x6c, 0xb8, 0x80, 0xd6, 0x7c, 0x80,
          0x6a, 0xa7, 0x31, 0xe3, 0xd6, 0x86, 0, 0, 0, 0, 0, 0, 0, 0, 0, 0, 0 :: byte] = 31
   \<and> length (chainIdToUint8Array 10004) = 31
   \<and> (\<exists>m h'. main_createMessageArrays
                [0x00, 0x9c, 0xbb, 0x8f, 0x91, 0xd3, 0x92, 0x85, 0x6c, 0xb8, 0x80, 0xd6, 0x7c,
                 0x80, 0x6a, 0xa7, 0x31, 0xe3, 0xd6, 0x86, 0, 0, 0, 0, 0, 0, 0, 0, 0, 0, 0]
                (chainIdToUint8Array 10004) () [] = (m, h')
         \<and> length m = 7
         \<and> elements h' (m ! 0) =
              [0x00, 0x9c, 0xbb, 0x8f, 0x91, 0xd3, 0x92, 0x85, 0x6c, 0xb8, 0x80, 0xd6, 0x7c,
               0x80, 0x6a, 0xa7, 0x31, 0xe3, 0xd6, 0x86, 0, 0, 0, 0, 0, 0, 0, 0, 0, 0, 1]
         \<and> elements h' (m ! 1) =
              [0x14, 0x27, 0, 0, 0, 0, 0, 0, 0, 0, 0, 0, 0, 0, 0, 0, 0, 0, 0, 0, 0, 0, 0, 0, 0,
               0, 0, 0, 0, 0, 2]
         \<and> elements h' (m ! 2) ! 30 = 3
         \<and> elements h' (m ! 6) = replicate 30 0 @ [7])
   \<and> valid_array [replicate 62 5] \<lparr>buffer = 0, byteOffset = 0, array_length = 31\<rparr>
   \<and> valid_array [replicate 62 5] \<lparr>buffer = 0, byteOffset = 31, array_length = 31\<rparr>
   \<and> (0::nat) \<noteq> 31
   \<and> (\<exists>m h'. createMessageArrays \<lparr>buffer = 0, byteOffset = 0, array_length = 31\<rparr>
                \<lparr>buffer = 0, byteOffset = 31, array_length = 31\<rparr> () [replicate 62 5] = (m, h')
         \<and> length m = 7
         \<and> elements h' (m ! 0) ! 30 = 1 \<and> elements h' (m ! 1) ! 30 = 2)"
proof -
  define vb :: "byte list" where
    "vb = [0x00, 0x9c, 0xbb, 0x8f, 0x91, 0xd3, 0x92, 0x85, 0x6c, 0xb8, 0x80, 0xd6, 0x7c, 0x80,
           0x6a, 0xa7, 0x31, 0xe3, 0xd6, 0x86, 0, 0, 0, 0, 0, 0, 0, 0, 0, 0, 0]"
  define cb where "cb = chainIdToUint8Array 10004"
  define a where "a = \<lparr>buffer = 0, byteOffset = 0, array_length = 31\<rparr>"
  define b where "b = \<lparr>buffer = 0, byteOffset = 31, array_length = 31\<rparr>"
  define g :: heap where "g = [replicate 62 5]"
  have lv: "length vb = 31" by (simp add: vb_def)
  have lc: "length cb = 31" by (simp add: cb_def chainIdToUint8Array_def)
  have va: "valid_array g a" and vb': "valid_array g b"
    by (simp_all add: valid_array_def g_def a_def b_def)
  have la: "array_length a = 31" and lb: "array_length b = 31"
    by (simp_all add: a_def b_def)
  have off: "byteOffset a \<noteq> byteOffset b" by (simp add: a_def b_def)
  note t = createMessageArrays_seven_numbered_arrays
    [where vault_bytes = vb and chain_bytes = cb and h = "[]" and x = "()" and g = g
       and a = a and b = b]
  from t lv lc obtain m h' where
      r: "main_createMessageArrays vb cb () [] = (m, h')" and m7: "length m = 7"
    and p1: "\<forall>i<7. valid_array h' (m ! i) \<and> array_length (m ! i) = 31
                    \<and> length (elements h' (m ! i)) = 31
                    \<and> elements h' (m ! i) ! 30 = of_nat (i + 1)"
    and p2: "\<forall>i. 2 \<le> i \<and> i < 7 \<longrightarrow> elements h' (m ! i) = replicate 30 0 @ [of_nat (i + 1)]"
    and f0: "elements h' (m ! 0) = vb[30 := 1]"
    and f1: "elements h' (m ! 1) = cb[30 := 2]"
    by blast
  from p1 have "elements h' (m ! 2) ! 30 = of_nat (2 + 1)" by simp
  then have e2: "elements h' (m ! 2) ! 30 = 3" by simp
  from p2 have "elements h' (m ! 6) = replicate 30 0 @ [of_nat (6 + 1)]" by simp
  then have e6: "elements h' (m ! 6) = replicate 30 0 @ [7]" by simp
  have first: "\<exists>m h'. main_createMessageArrays vb cb () [] = (m, h')
         \<and> length m = 7
         \<and> elements h' (m ! 0) = vb[30 := 1]
         \<and> elements h' (m ! 1) = cb[30 := 2]
         \<and> elements h' (m ! 2) ! 30 = 3
         \<and> elements h' (m ! 6) = replicate 30 0 @ [7]"
    using r m7 f0 f1 e2 e6 by blast
  from t va vb' la lb off obtain n k' where
      r': "createMessageArrays a b () g = (n, k')" and n7: "length n = 7"
    and q1: "\<forall>i<7. valid_array k' (n ! i) \<and> array_length (n ! i) = 31
                    \<and> length (elements k' (n ! i)) = 31
                    \<and> elements k' (n ! i) ! 30 = of_nat (i + 1)"
    by blast
  from q1 have "elements k' (n ! 0) ! 30 = of_nat (0 + 1)"
    "elements k' (n ! 1) ! 30 = of_nat (1 + 1)" by simp_all
  then have "elements k' (n ! 0) ! 30 = 1" "elements k' (n ! 1) ! 30 = 2" by simp_all
  with r' n7 have second: "\<exists>m h'. createMessageArrays a b () g = (m, h')
         \<and> length m = 7
         \<and> elements h' (m ! 0) ! 30 = 1 \<and> elements h' (m ! 1) ! 30 = 2"
    by blast
  have n31: "(0::nat) \<noteq> 31" by simp
  have vbu: "vb[30 := 1] = [0x00, 0x9c, 0xbb, 0x8f, 0x91, 0xd3, 0x92, 0x85, 0x6c, 0xb8, 0x80,
      0xd6, 0x7c, 0x80, 0x6a, 0xa7, 0x31, 0xe3, 0xd6, 0x86, 0, 0, 0, 0, 0, 0, 0, 0, 0, 0, 1]"
    by (simp add: vb_def)
  have cbu: "cb[30 := 2] = [0x14, 0x27, 0, 0, 0, 0, 0, 0, 0, 0, 0, 0, 0, 0, 0, 0, 0, 0, 0, 0,
      0, 0, 0, 0, 0, 0, 0, 0, 0, 0, 2]"
    by (simp add: cb_def chainIdToUint8Array_10004)
  have hx: "hexAddressToUint8Array (js_str ''0x009cbB8f91d392856Cb880d67c806Aa731E3d686'')
              = Inr vb"
    unfolding vb_def by (rule vault_address_bytes)
  from hx lv lc first va vb' n31 second
  show ?thesis
    unfolding vbu cbu unfolding vb_def cb_def a_def b_def g_def
    by (intro conjI)
qed

section \<open>Properties of the process lifecycle\<close>

lemma handler_begin_without_pxe:
  "\<not> pxe s \<Longrightarrow>
   handler_begin line code s =
     s\<lparr>nodeClient := False, exited := Some code,
       effects := effects s @ [Console line, Console CleaningUpResources]
                  @ (if nodeClient s then [Console NodeClientCleanedUp] else [])
                  @ [ProcessExit code]\<rparr>"
  by (simp add: handler_begin_def cleanup_begin_def cleanup_nodeClient_def emit_def
        process_exit_def Let_def)

lemma handler_begin_with_pxe:
  "pxe s \<Longrightarrow>
   handler_begin line code s =
     s\<lparr>waiting := waiting s @ [code],
       effects := effects s @ [Console line, Console CleaningUpResources, PxeClose]\<rparr>"
  by (simp add: handler_begin_def cleanup_begin_def emit_def Let_def)

lemma handler_resume_returns:
  "cleanup_returns r \<Longrightarrow>
   handler_resume code r s =
     (case r of
        CloseResolves \<Rightarrow>
          s\<lparr>nodeClient := False, exited := Some code,
            effects := effects s @ [Console PxeServiceClosed]
                       @ (if nodeClient s then [Console NodeClientCleanedUp] else [])
                       @ [ProcessExit code]\<rparr>
      | CloseRejects reason \<Rightarrow>
          s\<lparr>exited := Some code,
            effects := effects s @ [Console (ErrorDuringCleanup (projr (message_of reason))),
                                    ProcessExit code]\<rparr>)"
  by (cases r)
     (auto simp: handler_resume_def cleanup_resume_def cleanup_returns_def cleanup_nodeClient_def
        emit_def process_exit_def split: sum.splits)

lemma handler_resume_throws:
  "message_of reason = Inl thrown \<Longrightarrow>
   handler_resume code (CloseRejects reason) s =
     s\<lparr>exited := Some 1, effects := effects s @ [UnhandledRejection thrown]\<rparr>"
  by (simp add: handler_resume_def cleanup_resume_def emit_def)

lemma process_run_exited: "exited s \<noteq> None \<Longrightarrow> process_run evs s = s"
  by (induction evs arbitrary: s) (simp_all add: process_step_def)

lemma process_run_append:
  "process_run (xs @ ys) s = process_run ys (process_run xs s)"
  by (induction xs arbitrary: s) simp_all

text \<open>While no call of close settles, the handlers that wait keep waiting.\<close>

lemma process_step_waits:
  assumes "exited s = None" "pxe s" "\<not> is_settlement e"
  shows "exited (process_step e s) = None \<and> pxe (process_step e s)
     \<and> (\<exists>ws. waiting (process_step e s) = waiting s @ ws)
     \<and> (\<exists>es. effects (process_step e s) = effects s @ es
              \<and> (\<forall>code. ProcessExit code \<notin> set es))"
  using assms
  by (cases e)
     (simp_all add: process_step_def on_signal_def on_main_rejected_def handler_begin_with_pxe)

lemma process_run_waits:
  assumes "exited s = None" "pxe s" "\<forall>e \<in> set evs. \<not> is_settlement e"
  shows "exited (process_run evs s) = None \<and> pxe (process_run evs s)
     \<and> (\<exists>ws. waiting (process_run evs s) = waiting s @ ws)
     \<and> (\<exists>es. effects (process_run evs s) = effects s @ es
              \<and> (\<forall>code. ProcessExit code \<notin> set es))"
  using assms
proof (induction evs arbitrary: s)
  case Nil
  then show ?case by simp
next
  case (Cons e evs)
  from Cons.prems have ne: "\<not> is_settlement e" and rest: "\<forall>e \<in> set evs. \<not> is_settlement e"
    by simp_all
  from process_step_waits [OF Cons.prems(1,2) ne]
  obtain ws es where st: "exited (process_step e s) = None" "pxe (process_step e s)"
      "waiting (process_step e s) = waiting s @ ws"
      "effects (process_step e s) = effects s @ es" "\<forall>code. ProcessExit code \<notin> set es"
    by blast
  from Cons.IH [OF st(1,2) rest]
  obtain ws' es' where r: "exited (process_run evs (process_step e s)) = None"
      "pxe (process_run evs (process_step e s))"
      "waiting (process_run evs (process_step e s)) = waiting (process_step e s) @ ws'"
      "effects (process_run evs (process_step e s)) = effects (process_step e s) @ es'"
      "\<forall>code. ProcessExit code \<notin> set es'"
    by blast
  from st r have "waiting (process_run (e # evs) s) = waiting s @ (ws @ ws')"
    "effects (process_run (e # evs) s) = effects s @ (es @ es')"
    "\<forall>code. ProcessExit code \<notin> set (es @ es')"
    by simp_all
  with r(1,2) show ?case by (metis process_run.simps(2))
qed

text \<open>The settlement of the close that a waiting handler awaits.\<close>

lemma process_step_settles:
  assumes "exited s = None" "k < length (waiting s)" "cleanup_returns r"
  shows "exited (process_step (CloseSettles k r) s) = Some (waiting s ! k)
     \<and> (\<exists>es. effects (process_step (CloseSettles k r) s)
                = effects s @ es @ [ProcessExit (waiting s ! k)]
              \<and> PxeClose \<notin> set es \<and> (\<forall>code. ProcessExit code \<notin> set es))"
  using assms
  by (cases r) (auto simp: process_step_def handler_resume_returns)

lemma shutdown_run:
  assumes live: "exited s = None" and p: "pxe s" and w: "waiting s = []"
    and evs: "\<forall>e \<in> set evs. \<not> is_settlement e" and r: "cleanup_returns r"
    and e0: "process_step e0 s = handler_begin line code s"
  shows "exited (process_run (e0 # evs @ [CloseSettles 0 r]) s) = Some code
     \<and> (\<exists>rest. effects (process_run (e0 # evs @ [CloseSettles 0 r]) s)
                 = effects s @ [Console line, Console CleaningUpResources, PxeClose]
                   @ rest @ [ProcessExit code]
               \<and> (\<forall>c. ProcessExit c \<notin> set rest))"
proof -
  let ?s1 = "process_step e0 s"
  let ?s2 = "process_run evs ?s1"
  have s1: "?s1 = s\<lparr>waiting := waiting s @ [code],
       effects := effects s @ [Console line, Console CleaningUpResources, PxeClose]\<rparr>"
    unfolding e0 using p by (rule handler_begin_with_pxe)
  have l1: "exited ?s1 = None" and p1: "pxe ?s1" and w1: "waiting ?s1 = [code]"
    and f1: "effects ?s1 = effects s @ [Console line, Console CleaningUpResources, PxeClose]"
    unfolding s1 using live p w by simp_all
  from process_run_waits [OF l1 p1 evs]
  obtain ws es where l2: "exited ?s2 = None" and w2: "waiting ?s2 = waiting ?s1 @ ws"
    and f2: "effects ?s2 = effects ?s1 @ es" and n2: "\<forall>c. ProcessExit c \<notin> set es"
    by blast
  from w2 w1 have k: "0 < length (waiting ?s2)" and c: "waiting ?s2 ! 0 = code" by simp_all
  from process_step_settles [OF l2 k r] c
  obtain es' where x3: "exited (process_step (CloseSettles 0 r) ?s2) = Some code"
    and f3: "effects (process_step (CloseSettles 0 r) ?s2) = effects ?s2 @ es' @ [ProcessExit code]"
    and n3: "\<forall>c. ProcessExit c \<notin> set es'"
    by auto
  have run: "process_run (e0 # evs @ [CloseSettles 0 r]) s = process_step (CloseSettles 0 r) ?s2"
    by (simp add: process_run_append)
  have "effects (process_run (e0 # evs @ [CloseSettles 0 r]) s)
          = effects s @ [Console line, Console CleaningUpResources, PxeClose]
            @ (es @ es') @ [ProcessExit code]"
    unfolding run f3 f2 f1 by simp
  moreover have "\<forall>c. ProcessExit c \<notin> set (es @ es')" using n2 n3 by simp
  ultimately show ?thesis unfolding run using x3 by blast
qed

text \<open>
  Claim C6, for a call of \<^verbatim>\<open>pxe.close()\<close> that settles. Without a PXE service, the
  handler of either termination signal runs to \<^verbatim>\<open>process.exit(0)\<close> at once, and the
  handler of a rejection of \<^verbatim>\<open>main()\<close> to \<^verbatim>\<open>process.exit(1)\<close>. With a PXE
  service, either handler calls \<^verbatim>\<open>pxe.close()\<close> and waits: the process has not
  ended. When the close that a waiting handler awaits resolves, or rejects with a reason
  whose message can be read, that handler ends the process with its own exit code, as
  its last effect, without another call of \<^verbatim>\<open>close\<close>. So, from a state with a
  PXE service and no handler waiting, a signal, followed by any events that settle no
  close and then by such a settlement of the close that the handler of the signal
  awaits, ends the process with code 0, after the call of \<^verbatim>\<open>pxe.close()\<close> and with
  no exit before; a rejection of \<^verbatim>\<open>main()\<close> in place of the signal ends it with
  code 1. Once the process has ended, no event changes anything.
\<close>

theorem graceful_shutdown_when_close_settles:
  "(exited s = None \<and> \<not> pxe s \<longrightarrow>
      process_step (Signal sig) s =
        s\<lparr>nodeClient := False, exited := Some 0,
          effects := effects s @ [Console (ReceivedSignal sig), Console CleaningUpResources]
                     @ (if nodeClient s then [Console NodeClientCleanedUp] else [])
                     @ [ProcessExit 0]\<rparr>
      \<and> process_step (MainRejects error) s =
        s\<lparr>nodeClient := False, exited := Some 1,
          effects := effects s @ [Console (UnhandledError error), Console CleaningUpResources]
                     @ (if nodeClient s then [Console NodeClientCleanedUp] else [])
                     @ [ProcessExit 1]\<rparr>)
   \<and> (exited s = None \<and> pxe s \<longrightarrow>
      process_step (Signal sig) s =
        s\<lparr>waiting := waiting s @ [0],
          effects := effects s @ [Console (ReceivedSignal sig), Console CleaningUpResources,
                                  PxeClose]\<rparr>
      \<and> process_step (MainRejects error) s =
        s\<lparr>waiting := waiting s @ [1],
          effects := effects s @ [Console (UnhandledError error), Console CleaningUpResources,
                                  PxeClose]\<rparr>)
   \<and> (exited s = None \<and> k < length (waiting s) \<and> cleanup_returns r \<longrightarrow>
      exited (process_step (CloseSettles k r) s) = Some (waiting s ! k)
      \<and> (\<exists>es. effects (process_step (CloseSettles k r) s)
                 = effects s @ es @ [ProcessExit (waiting s ! k)]
               \<and> PxeClose \<notin> set es \<and> (\<forall>c. ProcessExit c \<notin> set es)))
   \<and> (exited s = None \<and> pxe s \<and> waiting s = [] \<and> (\<forall>e \<in> set evs. \<not> is_settlement e)
        \<and> cleanup_returns r \<longrightarrow>
      exited (process_run (Signal sig # evs @ [CloseSettles 0 r]) s) = Some 0
      \<and> (\<exists>rest. effects (process_run (Signal sig # evs @ [CloseSettles 0 r]) s)
                   = effects s @ [Console (ReceivedSignal sig), Console CleaningUpResources,
                                  PxeClose] @ rest @ [ProcessExit 0]
                 \<and> (\<forall>c. ProcessExit c \<notin> set rest))
      \<and> exited (process_run (MainRejects error # evs @ [CloseSettles 0 r]) s) = Some 1
      \<and> (\<exists>rest. effects (process_run (MainRejects error # evs @ [CloseSettles 0 r]) s)
                   = effects s @ [Console (UnhandledError error), Console CleaningUpResources,
                                  PxeClose] @ rest @ [ProcessExit 1]
                 \<and> (\<forall>c. ProcessExit c \<notin> set rest)))
   \<and> (exited s = Some code \<longrightarrow> process_run evs s = s)"
proof (intro conjI impI)
  assume a: "exited s = None \<and> \<not> pxe s"
  then show "process_step (Signal sig) s =
        s\<lparr>nodeClient := False, exited := Some 0,
          effects := effects s @ [Console (ReceivedSignal sig), Console CleaningUpResources]
                     @ (if nodeClient s then [Console NodeClientCleanedUp] else [])
                     @ [ProcessExit 0]\<rparr>"
    by (simp add: process_step_def on_signal_def handler_begin_without_pxe)
  from a show "process_step (MainRejects error) s =
        s\<lparr>nodeClient := False, exited := Some 1,
          effects := effects s @ [Console (UnhandledError error), Console CleaningUpResources]
                     @ (if nodeClient s then [Console NodeClientCleanedUp] else [])
                     @ [ProcessExit 1]\<rparr>"
    by (simp add: process_step_def on_main_rejected_def handler_begin_without_pxe)
next
  assume a: "exited s = None \<and> pxe s"
  then show "process_step (Signal sig) s =
        s\<lparr>waiting := waiting s @ [0],
          effects := effects s @ [Console (ReceivedSignal sig), Console CleaningUpResources,
                                  PxeClose]\<rparr>"
    by (simp add: process_step_def on_signal_def handler_begin_with_pxe)
  from a show "process_step (MainRejects error) s =
        s\<lparr>waiting := waiting s @ [1],
          effects := effects s @ [Console (UnhandledError error), Console CleaningUpResources,
                                  PxeClose]\<rparr>"
    by (simp add: process_step_def on_main_rejected_def handler_begin_with_pxe)
next
  assume a: "exited s = None \<and> k < length (waiting s) \<and> cleanup_returns r"
  then have h: "exited s = None" "k < length (waiting s)" "cleanup_returns r" by simp_all
  from process_step_settles [OF h]
  show "exited (process_step (CloseSettles k r) s) = Some (waiting s ! k)"
    and "\<exists>es. effects (process_step (CloseSettles k r) s)
                 = effects s @ es @ [ProcessExit (waiting s ! k)]
               \<and> PxeClose \<notin> set es \<and> (\<forall>c. ProcessExit c \<notin> set es)"
    by blast+
next
  assume a: "exited s = None \<and> pxe s \<and> waiting s = [] \<and> (\<forall>e \<in> set evs. \<not> is_settlement e)
        \<and> cleanup_returns r"
  then have h: "exited s = None" "pxe s" "waiting s = []" "\<forall>e \<in> set evs. \<not> is_settlement e"
    "cleanup_returns r" by simp_all
  have sg: "process_step (Signal sig) s = handler_begin (ReceivedSignal sig) 0 s"
    and mr: "process_step (MainRejects error) s = handler_begin (UnhandledError error) 1 s"
    using h(1) by (simp_all add: process_step_def on_signal_def on_main_rejected_def)
  from shutdown_run [OF h sg]
  show "exited (process_run (Signal sig # evs @ [CloseSettles 0 r]) s) = Some 0"
    and "\<exists>rest. effects (process_run (Signal sig # evs @ [CloseSettles 0 r]) s)
                   = effects s @ [Console (ReceivedSignal sig), Console CleaningUpResources,
                                  PxeClose] @ rest @ [ProcessExit 0]
                 \<and> (\<forall>c. ProcessExit c \<notin> set rest)"
    by blast+
  from shutdown_run [OF h mr]
  show "exited (process_run (MainRejects error # evs @ [CloseSettles 0 r]) s) = Some 1"
    and "\<exists>rest. effects (process_run (MainRejects error # evs @ [CloseSettles 0 r]) s)
                   = effects s @ [Console (UnhandledError error), Console CleaningUpResources,
                                  PxeClose] @ rest @ [ProcessExit 1]
                 \<and> (\<forall>c. ProcessExit c \<notin> set rest)"
    by blast+
next
  assume "exited s = Some code"
  then show "process_run evs s = s" by (simp add: process_run_exited)
qed

theorem graceful_shutdown_when_close_settles_witness:
  "exited initial_state = None \<and> \<not> pxe initial_state
   \<and> exited (process_step (Signal SIGINT) initial_state) = Some 0
   \<and> effects (process_step (Signal SIGINT) initial_state) =
        [Console (ReceivedSignal SIGINT), Console CleaningUpResources, ProcessExit 0]
   \<and> exited (process_step (MainRejects (Error ''init failed'')) initial_state) = Some 1
   \<and> exited (process_run [NodeClientCreated, PxeCreated] initial_state) = None
   \<and> pxe (process_run [NodeClientCreated, PxeCreated] initial_state)
   \<and> waiting (process_run [NodeClientCreated, PxeCreated] initial_state) = []
   \<and> \<not> is_settlement (MainRejects (Error ''connection lost''))
   \<and> cleanup_returns (CloseRejects (ReasonValue (Some ''already closed'')))
   \<and> exited (process_run
                ([Signal SIGTERM, MainRejects (Error ''connection lost'')]
                 @ [CloseSettles 0 (CloseRejects (ReasonValue (Some ''already closed'')))])
                (process_run [NodeClientCreated, PxeCreated] initial_state)) = Some 0
   \<and> exited (process_run
                ([MainRejects (Error ''tx failed''), MainRejects (Error ''connection lost'')]
                 @ [CloseSettles 0 (CloseRejects (ReasonValue (Some ''already closed'')))])
                (process_run [NodeClientCreated, PxeCreated] initial_state)) = Some 1
   \<and> waiting (process_step (Signal SIGTERM)
                 (process_run [NodeClientCreated, PxeCreated] initial_state)) = [0]
   \<and> exited (process_step (Signal SIGTERM)
                (process_run [NodeClientCreated, PxeCreated] initial_state)) = None
   \<and> (0::nat) < length (waiting (process_step (Signal SIGTERM)
                 (process_run [NodeClientCreated, PxeCreated] initial_state)))
   \<and> cleanup_returns CloseResolves
   \<and> exited (process_step (CloseSettles 0 CloseResolves)
                (process_step (Signal SIGTERM)
                   (process_run [NodeClientCreated, PxeCreated] initial_state))) = Some 0
   \<and> exited (process_step (Signal SIGINT) initial_state) = Some 0
   \<and> process_run [Signal SIGTERM, MainRejects (Error ''late'')]
        (process_step (Signal SIGINT) initial_state)
        = process_step (Signal SIGINT) initial_state"
proof -
  define s0 where "s0 = initial_state"
  define s1 where "s1 = process_run [NodeClientCreated, PxeCreated] initial_state"
  define s2 where "s2 = process_step (Signal SIGTERM) s1"
  define s3 where "s3 = process_step (Signal SIGINT) s0"
  define r where "r = CloseRejects (ReasonValue (Some ''already closed''))"
  define evs where "evs = [MainRejects (Error ''connection lost'')]"
  have s1_eq: "s1 = \<lparr>pxe = True, nodeClient = True, waiting = [], exited = None, effects = []\<rparr>"
    by (simp add: s1_def initial_state_def process_step_def)
  have a0: "exited s0 = None" and a1: "\<not> pxe s0" and e0: "effects s0 = []"
    and n0: "\<not> nodeClient s0"
    by (simp_all add: s0_def initial_state_def)
  have b0: "exited s1 = None" and b1: "pxe s1" and b2: "waiting s1 = []"
    by (simp_all add: s1_eq)
  have b3: "\<forall>e \<in> set evs. \<not> is_settlement e" and b3': "\<not> is_settlement (MainRejects (Error ''connection lost''))"
    by (simp_all add: evs_def)
  have b4: "cleanup_returns r" and b5: "cleanup_returns CloseResolves"
    by (simp_all add: r_def cleanup_returns_def)
  note t0 = graceful_shutdown_when_close_settles
    [where s = s0 and sig = SIGINT and error = "Error ''init failed''" and k = 0
       and r = CloseResolves and evs = "[]" and code = 0]
  from t0 a0 a1 have c0: "process_step (Signal SIGINT) s0 =
        s0\<lparr>nodeClient := False, exited := Some 0,
          effects := effects s0 @ [Console (ReceivedSignal SIGINT), Console CleaningUpResources]
                     @ (if nodeClient s0 then [Console NodeClientCleanedUp] else [])
                     @ [ProcessExit 0]\<rparr>"
    and c1: "process_step (MainRejects (Error ''init failed'')) s0 =
        s0\<lparr>nodeClient := False, exited := Some 1,
          effects := effects s0 @ [Console (UnhandledError (Error ''init failed'')),
                                   Console CleaningUpResources]
                     @ (if nodeClient s0 then [Console NodeClientCleanedUp] else [])
                     @ [ProcessExit 1]\<rparr>"
    by blast+
  from c0 e0 n0 have d0: "exited (process_step (Signal SIGINT) s0) = Some 0"
    and d1: "effects (process_step (Signal SIGINT) s0) =
        [Console (ReceivedSignal SIGINT), Console CleaningUpResources, ProcessExit 0]"
    by simp_all
  from c1 have d2: "exited (process_step (MainRejects (Error ''init failed'')) s0) = Some 1"
    by simp
  note t1 = graceful_shutdown_when_close_settles
    [where s = s1 and sig = SIGTERM and error = "Error ''tx failed''" and k = 0
       and r = r and evs = evs and code = 0]
  from t1 b0 b1 b2 b3 b4
  have g0: "exited (process_run (Signal SIGTERM # evs @ [CloseSettles 0 r]) s1) = Some 0"
    and g1: "exited (process_run (MainRejects (Error ''tx failed'') # evs @ [CloseSettles 0 r]) s1)
               = Some 1"
    and g2: "process_step (Signal SIGTERM) s1 =
        s1\<lparr>waiting := waiting s1 @ [0],
          effects := effects s1 @ [Console (ReceivedSignal SIGTERM), Console CleaningUpResources,
                                  PxeClose]\<rparr>"
    by blast+
  from g2 b0 b2 have w2: "waiting s2 = [0]" and x2: "exited s2 = None"
    by (simp_all add: s2_def)
  then have k2: "(0::nat) < length (waiting s2)" by simp
  note t2 = graceful_shutdown_when_close_settles
    [where s = s2 and sig = SIGTERM and error = "Error ''tx failed''" and k = 0
       and r = CloseResolves and evs = "[]" and code = 0]
  from t2 x2 k2 b5 w2
  have g3: "exited (process_step (CloseSettles 0 CloseResolves) s2) = Some 0"
    by simp
  have x3: "exited s3 = Some 0" using d0 by (simp add: s3_def)
  note t3 = graceful_shutdown_when_close_settles
    [where s = s3 and sig = SIGTERM and error = "Error ''late''" and k = 0
       and r = CloseResolves and evs = "[Signal SIGTERM, MainRejects (Error ''late'')]"
       and code = 0]
  from t3 x3 have g4: "process_run [Signal SIGTERM, MainRejects (Error ''late'')] s3 = s3"
    by blast
  from a0 a1 d0 d1 d2 b0 b1 b2 b3' b4 g0 g1 w2 x2 k2 b5 g3 x3 g4
  show ?thesis
    unfolding s0_def s1_def s2_def s3_def r_def evs_def by simp
qed

text \<open>
  Claim C6 as stated, that the process exits with code 0 after a termination signal,
  fails in three runs with a PXE service. While the promise of \<^verbatim>\<open>pxe.close()\<close> is
  pending, the handler has not called \<^verbatim>\<open>process.exit\<close>. When the promise rejects
  with \<^verbatim>\<open>undefined\<close> as the reason, reading \<^verbatim>\<open>error.message\<close> in the
  \<^verbatim>\<open>catch\<close> block throws, \<open>cleanup\<close> throws, \<^verbatim>\<open>process.exit(0)\<close> is not
  reached, and the process ends with code 1. When \<^verbatim>\<open>main()\<close> rejects while the
  handler of the signal waits, and the close that the handler of the rejection has
  called resolves first, that handler ends the process with code 1.
\<close>

theorem shutdown_without_exit_0_counterexample:
  "process_run [NodeClientCreated, PxeCreated, Signal SIGINT] initial_state =
     \<lparr>pxe = True, nodeClient = True, waiting = [0], exited = None,
      effects = [Console (ReceivedSignal SIGINT), Console CleaningUpResources, PxeClose]\<rparr>
   \<and> process_run [NodeClientCreated, PxeCreated, Signal SIGINT,
                   CloseSettles 0 (CloseRejects ReasonUndefined)] initial_state =
     \<lparr>pxe = True, nodeClient = True, waiting = [], exited = Some 1,
      effects = [Console (ReceivedSignal SIGINT), Console CleaningUpResources, PxeClose,
                 UnhandledRejection
                   (Error ''TypeError: Cannot read properties of undefined'')]\<rparr>
   \<and> process_run [NodeClientCreated, PxeCreated, Signal SIGINT,
                   MainRejects (Error ''connection lost''),
                   CloseSettles 1 CloseResolves] initial_state =
     \<lparr>pxe = True, nodeClient = False, waiting = [0], exited = Some 1,
      effects = [Console (ReceivedSignal SIGINT), Console CleaningUpResources, PxeClose,
                 Console (UnhandledError (Error ''connection lost'')),
                 Console CleaningUpResources, PxeClose,
                 Console PxeServiceClosed, Console NodeClientCleanedUp, ProcessExit 1]\<rparr>"
  by (simp add: initial_state_def process_step_def on_signal_def on_main_rejected_def
        handler_begin_with_pxe handler_resume_throws handler_resume_returns
        cleanup_returns_def)

section \<open>Properties of SendVerifyTransaction\<close>

lemma hexutil_Encode_nonempty: "hexutil_Encode b \<noteq> ''''"
  by (simp add: hexutil_Encode_def)

lemma Pack_verify:
  "Pack [\<lparr>method_name = ''verify'', method_inputs = 1, method_ID = [0x8e, 0x76, 0x0a, 0xfe]\<rparr>]
      ''verify'' [vaaBytes] =
   Inr ([0x8e, 0x76, 0x0a, 0xfe] @ uint256_be 32 @ uint256_be (length vaaBytes) @ vaaBytes
        @ replicate ((length vaaBytes + 31) div 32 * 32 - length vaaBytes) 0)"
proof -
  have "(length vaaBytes + 31) div 32 * 32 \<le> length vaaBytes \<Longrightarrow>
        (length vaaBytes + 31) div 32 * 32 - length vaaBytes = 0"
    by simp
  then show ?thesis
    by (simp add: Pack_def packBytesSlice_def RightPadBytes_def)
qed

lemma length_uint256_be: "length (uint256_be n) = 32"
  by (simp add: uint256_be_def)

lemma try_call_Inr: "try_call (Inr v) prefix made continue = (fst (continue v), made @ snd (continue v))"
  by (simp add: try_call_def)

lemma uint256_be_small:
  assumes "n < 256"
  shows "uint256_be n = replicate 31 0 @ [of_nat n]"
proof (rule nth_equalityI)
  show "length (uint256_be n) = length (replicate 31 (0::byte) @ [of_nat n])"
    by (simp add: uint256_be_def)
next
  fix i
  assume "i < length (uint256_be n)"
  then have i: "i < 32" by (simp add: uint256_be_def)
  show "uint256_be n ! i = (replicate 31 0 @ [of_nat n]) ! i"
  proof (cases "i < 31")
    case True
    then have "(256::nat) ^ 1 \<le> 256 ^ (31 - i)"
      by (intro power_increasing) simp_all
    with assms have "n div 256 ^ (31 - i) = 0" by simp
    with True i show ?thesis
      by (simp add: uint256_be_def nth_append)
  next
    case False
    with i have "i = 31" by simp
    then show ?thesis
      by (simp add: uint256_be_def nth_append)
  qed
qed

lemma SendVerifyTransaction_cases:
  "SendVerifyTransaction node c_address targetContract vaaBytes =
     (case PendingNonceAt node of
        Inl err \<Rightarrow> (('''', Some (Errorf ''failed to get nonce: '' err)),
                    [CallPendingNonceAt c_address])
      | Inr nonce \<Rightarrow>
     (case SuggestGasPrice node of
        Inl err \<Rightarrow> (('''', Some (Errorf ''failed to get gas price: '' err)),
                    [CallPendingNonceAt c_address, CallSuggestGasPrice])
      | Inr gasPrice \<Rightarrow>
     (case NetworkID node of
        Inl err \<Rightarrow> (('''', Some (Errorf ''failed to get chain ID: '' err)),
                    [CallPendingNonceAt c_address, CallSuggestGasPrice, CallNetworkID])
      | Inr chainID \<Rightarrow>
     (case SignTx node of
        Inl err \<Rightarrow> (('''', Some (Errorf ''failed to sign transaction: '' err)),
                    [CallPendingNonceAt c_address, CallSuggestGasPrice, CallNetworkID])
      | Inr sig \<Rightarrow>
     (case SendTransaction node of
        Inl err \<Rightarrow> (('''', Some (Errorf ''failed to send transaction: '' err)),
                    [CallPendingNonceAt c_address, CallSuggestGasPrice, CallNetworkID,
                     CallSendTransaction (WithSignature
                       (NewTransaction nonce (HexToAddress targetContract) 0 3000000 gasPrice
                          ([0x8e, 0x76, 0x0a, 0xfe] @ uint256_be 32 @ uint256_be (length vaaBytes)
                           @ vaaBytes
                           @ replicate ((length vaaBytes + 31) div 32 * 32 - length vaaBytes) 0))
                       chainID sig)])
      | Inr sent \<Rightarrow> ((hexutil_Encode (Hash node), None),
                    [CallPendingNonceAt c_address, CallSuggestGasPrice, CallNetworkID,
                     CallSendTransaction (WithSignature
                       (NewTransaction nonce (HexToAddress targetContract) 0 3000000 gasPrice
                          ([0x8e, 0x76, 0x0a, 0xfe] @ uint256_be 32 @ uint256_be (length vaaBytes)
                           @ vaaBytes
                           @ replicate ((length vaaBytes + 31) div 32 * 32 - length vaaBytes) 0))
                       chainID sig)]))))))"
  apply (simp only: SendVerifyTransaction_def abi_JSON_verify_def try_call_Inr Pack_verify)
  apply (simp add: try_call_def split: sum.splits)
  done

text \<open>
  Claim C2. \<open>SendVerifyTransaction\<close> returns one of two shapes. When the nonce fetch,
  the gas-price fetch, the chain-id fetch, the signing and the broadcast all succeed, it
  returns the hexadecimal hash of the signed transaction, which is not empty, and a nil
  error. When any of them fails it returns the empty string and a non-nil error. It
  never returns a non-empty identifier together with an error, and the error is nil
  exactly when the identifier is not empty.
\<close>

theorem SendVerifyTransaction_result_shape:
  "(all_calls_succeed node \<longrightarrow>
      fst (SendVerifyTransaction node c_address targetContract vaaBytes)
        = (hexutil_Encode (Hash node), None)
      \<and> hexutil_Encode (Hash node) \<noteq> '''')
   \<and> (\<not> all_calls_succeed node \<longrightarrow>
      (\<exists>err. fst (SendVerifyTransaction node c_address targetContract vaaBytes)
        = ('''', Some err)))
   \<and> \<not> (fst (fst (SendVerifyTransaction node c_address targetContract vaaBytes)) \<noteq> ''''
         \<and> snd (fst (SendVerifyTransaction node c_address targetContract vaaBytes)) \<noteq> None)
   \<and> (snd (fst (SendVerifyTransaction node c_address targetContract vaaBytes)) = None
        \<longleftrightarrow> fst (fst (SendVerifyTransaction node c_address targetContract vaaBytes)) \<noteq> '''')"
  unfolding SendVerifyTransaction_cases all_calls_succeed_def
  by (simp add: hexutil_Encode_nonempty split: sum.splits)

theorem SendVerifyTransaction_result_shape_witness:
  "all_calls_succeed
     \<lparr>PendingNonceAt = Inr 7, SuggestGasPrice = Inr 100, NetworkID = Inr 421614,
      SignTx = Inr [1, 2, 3], SendTransaction = Inr (), Hash = [0xab, 0x01]\<rparr>
   \<and> fst (SendVerifyTransaction
       \<lparr>PendingNonceAt = Inr 7, SuggestGasPrice = Inr 100, NetworkID = Inr 421614,
        SignTx = Inr [1, 2, 3], SendTransaction = Inr (), Hash = [0xab, 0x01]\<rparr>
       (HexToAddress ''0xf39F'') ''0x009c'' [1, 2, 3]) = (''0xab01'', None)
   \<and> \<not> all_calls_succeed
     \<lparr>PendingNonceAt = Inr 7, SuggestGasPrice = Inl (GoError ''timeout''), NetworkID = Inr 421614,
      SignTx = Inr [1, 2, 3], SendTransaction = Inr (), Hash = [0xab, 0x01]\<rparr>
   \<and> fst (SendVerifyTransaction
       \<lparr>PendingNonceAt = Inr 7, SuggestGasPrice = Inl (GoError ''timeout''), NetworkID = Inr 421614,
        SignTx = Inr [1, 2, 3], SendTransaction = Inr (), Hash = [0xab, 0x01]\<rparr>
       (HexToAddress ''0xf39F'') ''0x009c'' [1, 2, 3])
       = ('''', Some (GoError ''failed to get gas price: timeout''))"
  using SendVerifyTransaction_result_shape
    [of "\<lparr>PendingNonceAt = Inr 7, SuggestGasPrice = Inr 100, NetworkID = Inr 421614,
          SignTx = Inr [1, 2, 3], SendTransaction = Inr (), Hash = [0xab, 0x01]\<rparr>"
        "HexToAddress ''0xf39F''" "''0x009c''" "[1, 2, 3]"]
    SendVerifyTransaction_result_shape
    [of "\<lparr>PendingNonceAt = Inr 7, SuggestGasPrice = Inl (GoError ''timeout''),
          NetworkID = Inr 421614, SignTx = Inr [1, 2, 3], SendTransaction = Inr (),
          Hash = [0xab, 0x01]\<rparr>"
        "HexToAddress ''0xf39F''" "''0x009c''" "[1, 2, 3]"]
  by (simp add: all_calls_succeed_def hexutil_Encode_def hex_char_def Errorf_def
        SendVerifyTransaction_cases)

text \<open>
  Claim C7. Whatever the payload bytes are, a transaction that \<open>SendVerifyTransaction\<close>
  hands to the node for broadcast carries as its data exactly the ABI encoding of the
  call \<^verbatim>\<open>verify(encodedVm)\<close>: the method identifier, the offset word 32, the length
  word, the payload bytes unmodified (they are read back from position 68) and the zero
  padding; its value is 0 and its recipient is the target contract. No payload is
  rejected: the call succeeds exactly when the calls on the node and the signing do,
  and then it has broadcast one such transaction.
\<close>

theorem SendVerifyTransaction_forwards_payload:
  "(\<forall>signedTx. CallSendTransaction signedTx
        \<in> set (snd (SendVerifyTransaction node c_address targetContract vaaBytes)) \<longrightarrow>
      tx_data (signed_inner signedTx)
        = [0x8e, 0x76, 0x0a, 0xfe] @ uint256_be 32 @ uint256_be (length vaaBytes) @ vaaBytes
          @ replicate ((length vaaBytes + 31) div 32 * 32 - length vaaBytes) 0
      \<and> take (length vaaBytes) (drop 68 (tx_data (signed_inner signedTx))) = vaaBytes
      \<and> tx_value (signed_inner signedTx) = 0
      \<and> tx_to (signed_inner signedTx) = HexToAddress targetContract)
   \<and> (all_calls_succeed node \<longrightarrow>
      (\<exists>signedTx. snd (SendVerifyTransaction node c_address targetContract vaaBytes)
         = [CallPendingNonceAt c_address, CallSuggestGasPrice, CallNetworkID,
            CallSendTransaction signedTx]))
   \<and> (snd (fst (SendVerifyTransaction node c_address targetContract vaaBytes)) = None
        \<longleftrightarrow> all_calls_succeed node)"
  unfolding SendVerifyTransaction_cases all_calls_succeed_def
  by (auto simp: WithSignature_def NewTransaction_def length_uint256_be split: sum.splits)

theorem SendVerifyTransaction_forwards_payload_witness:
  "all_calls_succeed
     \<lparr>PendingNonceAt = Inr 7, SuggestGasPrice = Inr 100, NetworkID = Inr 421614,
      SignTx = Inr [1, 2, 3], SendTransaction = Inr (), Hash = [0xab, 0x01]\<rparr>
   \<and> snd (SendVerifyTransaction
       \<lparr>PendingNonceAt = Inr 7, SuggestGasPrice = Inr 100, NetworkID = Inr 421614,
        SignTx = Inr [1, 2, 3], SendTransaction = Inr (), Hash = [0xab, 0x01]\<rparr>
       (HexToAddress ''0xf39F'') ''0x009c'' [0xde, 0xad])
     = [CallPendingNonceAt (HexToAddress ''0xf39F''), CallSuggestGasPrice, CallNetworkID,
        CallSendTransaction
          \<lparr>signed_inner =
             \<lparr>tx_nonce = 7, tx_to = HexToAddress ''0x009c'', tx_value = 0, tx_gas = 3000000,
              tx_gasPrice = 100,
              tx_data = [0x8e, 0x76, 0x0a, 0xfe] @ (replicate 31 0 @ [32])
                        @ (replicate 31 0 @ [2]) @ [0xde, 0xad] @ replicate 30 0\<rparr>,
           signed_chainID = 421614, signed_sig = [1, 2, 3]\<rparr>]"
  using SendVerifyTransaction_forwards_payload
    [of "\<lparr>PendingNonceAt = Inr 7, SuggestGasPrice = Inr 100, NetworkID = Inr 421614,
          SignTx = Inr [1, 2, 3], SendTransaction = Inr (), Hash = [0xab, 0x01]\<rparr>"
        "HexToAddress ''0xf39F''" "''0x009c''" "[0xde, 0xad]"]
    uint256_be_small [of 32] uint256_be_small [of 2]
  by (simp add: all_calls_succeed_def SendVerifyTransaction_cases WithSignature_def
        NewTransaction_def length_uint256_be numeral_2_eq_2)

section \<open>Properties of the relayer pipeline as the spec describes it\<close>


lemma tryBegin_refuses:
  "l i = Some r \<Longrightarrow> status r = InFlight \<or> status r = Confirmed \<Longrightarrow>
   tryBegin eligible i l = (False, l)"
  by (auto simp: tryBegin_def)

lemma tryBegin_other: "j \<noteq> i \<Longrightarrow> snd (tryBegin eligible i l) j = l j"
  by (auto simp: tryBegin_def split: option.splits status.splits)

lemma commit_other: "j \<noteq> i \<Longrightarrow> commit i out n l j = l j"
  by (auto simp: commit_def split: option.splits outcome.splits)

lemma dispatch_confirmed_same:
  assumes "ledger s (identity_of a) = Some r" "status r = Confirmed"
  shows "dispatch cfg a rt s = s\<lparr>diagnostics := diagnostics s @ [AlreadyProcessing (identity_of a)]\<rparr>"
  using assms by (simp add: dispatch_def Let_def tryBegin_refuses)

lemma dispatch_other:
  assumes "identity_of a \<noteq> i"
  shows "ledger (dispatch cfg a rt s) i = ledger s i
       \<and> submissions_for i (dispatch cfg a rt s) = submissions_for i s"
  using assms
  by (simp add: dispatch_def Let_def submissions_for_def commit_other tryBegin_other)

lemma process_keeps_confirmed:
  assumes "ledger s i = Some r" "status r = Confirmed"
  shows "ledger (process cfg a s) i = Some r
       \<and> submissions_for i (process cfg a s) = submissions_for i s"
proof (cases "isRelevant a (routes cfg)")
  case None
  then show ?thesis using assms by (simp add: process_def submissions_for_def)
next
  case (Some rt)
  show ?thesis
  proof (cases "identity_of a = i")
    case True
    with assms Some show ?thesis
      by (simp add: process_def dispatch_confirmed_same submissions_for_def)
  next
    case False
    with assms Some dispatch_other [OF False, of cfg rt s] show ?thesis
      by (simp add: process_def)
  qed
qed

lemma step_keeps_confirmed:
  assumes "ledger s i = Some r" "status r = Confirmed"
  shows "ledger (relayer_step cfg e s) i = Some r
       \<and> submissions_for i (relayer_step cfg e s) = submissions_for i s"
proof (cases e)
  case (Deliver a)
  with assms process_keeps_confirmed [OF assms, of cfg a] show ?thesis by simp
next
  case Restart
  with assms show ?thesis by (simp add: restart_ledger_def submissions_for_def)
qed

lemma run_keeps_confirmed:
  "ledger s i = Some r \<Longrightarrow> status r = Confirmed \<Longrightarrow>
   ledger (relayer_run cfg es s) i = Some r
   \<and> submissions_for i (relayer_run cfg es s) = submissions_for i s"
proof (induction es arbitrary: s)
  case Nil
  then show ?case by simp
next
  case (Cons e es)
  from step_keeps_confirmed [OF Cons.prems, of cfg e]
  have a: "ledger (relayer_step cfg e s) i = Some r"
    and b: "submissions_for i (relayer_step cfg e s) = submissions_for i s"
    by simp_all
  from Cons.IH [OF a Cons.prems(2)] b show ?case by simp
qed


lemma run_attempts_all_transient:
  assumes "\<forall>n. \<exists>m. client p n pl = Inl (Transient m)"
  shows "length (snd (run_attempts client pl p budget n last_err)) = budget
       \<and> (\<exists>e. fst (run_attempts client pl p budget n last_err) = FailedPermanentWith e)
       \<and> (\<forall>x \<in> set (snd (run_attempts client pl p budget n last_err)).
             attempt_path x = p \<and> (\<exists>m. attempt_result x = Inl (Transient m)))
       \<and> map attempt_number (snd (run_attempts client pl p budget n last_err)) = [n..<n + budget]"
proof (induction budget arbitrary: n last_err)
  case 0
  then show ?case by simp
next
  case (Suc budget)
  from assms obtain m where m: "client p n pl = Inl (Transient m)" by blast
  from Suc [of "Suc n" "Some (Transient m)"] m show ?case
    by (simp add: upt_conv_Cons)
qed

lemma run_attempts_confirmed_iff:
  "fst (run_attempts client pl p budget n last_err) = ConfirmedWith tx \<longleftrightarrow>
     snd (run_attempts client pl p budget n last_err) \<noteq> []
     \<and> attempt_result (last (snd (run_attempts client pl p budget n last_err))) = Inr tx"
proof (induction budget arbitrary: p n last_err)
  case 0
  then show ?case by simp
next
  case (Suc budget)
  show ?case
  proof (cases "client p n pl")
    case (Inr tx')
    then show ?thesis by simp
  next
    case (Inl e)
    show ?thesis
    proof (cases e)
      case (Transient m)
      with Inl Suc [of p "Suc n" "Some (Transient m)"] show ?thesis
        by (cases budget) (auto simp: Let_def)
    next
      case (ServiceUnavailable m)
      with Inl Suc [of Secondary "Suc n" "Some (ServiceUnavailable m)"] show ?thesis
        by (cases budget) (auto simp: Let_def)
    next
      case (Permanent m)
      with Inl show ?thesis by simp
    qed
  qed
qed


lemma run_attempts_secondary_stays:
  "x \<in> set (snd (run_attempts client pl Secondary budget n last_err)) \<Longrightarrow>
   attempt_path x = Secondary"
proof (induction budget arbitrary: n last_err)
  case 0
  then show ?case by simp
next
  case (Suc budget)
  show ?case
  proof (cases "client Secondary n pl")
    case (Inr tx)
    with Suc.prems show ?thesis by simp
  next
    case (Inl e)
    with Suc.prems Suc.IH show ?thesis
      by (cases e) (auto simp: Let_def)
  qed
qed

lemma run_attempts_failover:
  "j < k \<Longrightarrow> k < length (snd (run_attempts client pl p budget n last_err)) \<Longrightarrow>
   is_unavailable (attempt_result (snd (run_attempts client pl p budget n last_err) ! j)) \<Longrightarrow>
   attempt_path (snd (run_attempts client pl p budget n last_err) ! k) = Secondary"
proof (induction budget arbitrary: p n last_err j k)
  case 0
  then show ?case by simp
next
  case (Suc budget)
  obtain k' where k: "k = Suc k'" using Suc.prems(1) by (cases k) auto
  show ?case
  proof (cases "client p n pl")
    case (Inr tx)
    with Suc.prems show ?thesis by simp
  next
    case (Inl e)
    show ?thesis
    proof (cases e)
      case (Permanent m)
      with Inl Suc.prems show ?thesis by simp
    next
      case (Transient m)
      let ?rest = "snd (run_attempts client pl p budget (Suc n) (Some (Transient m)))"
      have log: "snd (run_attempts client pl p (Suc budget) n last_err)
                   = \<lparr>attempt_path = p, attempt_number = n, attempt_result = client p n pl\<rparr> # ?rest"
        using Inl Transient by (simp add: Let_def)
      from Suc.prems(3) log Inl Transient obtain j' where j: "j = Suc j'"
        by (cases j) (auto simp: is_unavailable_def)
      from Suc.prems log j k have "j' < k'" "k' < length ?rest"
        "is_unavailable (attempt_result (?rest ! j'))" by simp_all
      from Suc.IH [OF this] log k show ?thesis by simp
    next
      case (ServiceUnavailable m)
      let ?rest = "snd (run_attempts client pl Secondary budget (Suc n) (Some (ServiceUnavailable m)))"
      have log: "snd (run_attempts client pl p (Suc budget) n last_err)
                   = \<lparr>attempt_path = p, attempt_number = n, attempt_result = client p n pl\<rparr> # ?rest"
        using Inl ServiceUnavailable by (simp add: Let_def)
      from Suc.prems(2) log k have "k' < length ?rest" by simp
      then have "?rest ! k' \<in> set ?rest" by simp
      from run_attempts_secondary_stays [OF this] log k show ?thesis by simp
    qed
  qed
qed

lemma run_attempts_length:
  "length (snd (run_attempts client pl p budget n last_err)) \<le> budget"
proof (induction budget arbitrary: p n last_err)
  case 0
  then show ?case by simp
next
  case (Suc budget)
  show ?case
  proof (cases "client p n pl")
    case (Inr tx)
    then show ?thesis by simp
  next
    case (Inl e)
    with Suc.IH show ?thesis by (cases e) (auto simp: Let_def)
  qed
qed

lemma run_attempts_first:
  "snd (run_attempts client pl p (Suc budget) n last_err) \<noteq> []
   \<and> attempt_path (hd (snd (run_attempts client pl p (Suc budget) n last_err))) = p"
proof (cases "client p n pl")
  case (Inr tx)
  then show ?thesis by simp
next
  case (Inl e)
  then show ?thesis by (cases e) (auto simp: Let_def)
qed

lemma run_attempts_entry:
  "j < length (snd (run_attempts client pl p budget n last_err)) \<Longrightarrow>
   attempt_number (snd (run_attempts client pl p budget n last_err) ! j) = n + j
   \<and> attempt_result (snd (run_attempts client pl p budget n last_err) ! j)
       = client (attempt_path (snd (run_attempts client pl p budget n last_err) ! j)) (n + j) pl"
proof (induction budget arbitrary: p n last_err j)
  case 0
  then show ?case by simp
next
  case (Suc budget)
  show ?case
  proof (cases "client p n pl")
    case (Inr tx)
    with Suc.prems show ?thesis by simp
  next
    case (Inl e)
    show ?thesis
    proof (cases j)
      case 0
      with Inl show ?thesis by (cases e) (auto simp: Let_def)
    next
      case (Suc j')
      with Inl Suc.prems Suc.IH [of j' _ "Suc n"] show ?thesis
        by (cases e) (auto simp: Let_def)
    qed
  qed
qed

lemma run_attempts_switch:
  "j < length (snd (run_attempts client pl p budget n last_err)) \<Longrightarrow>
   is_unavailable (attempt_result (snd (run_attempts client pl p budget n last_err) ! j)) \<Longrightarrow>
   Suc j < budget \<Longrightarrow>
   Suc j < length (snd (run_attempts client pl p budget n last_err))
   \<and> attempt_path (snd (run_attempts client pl p budget n last_err) ! Suc j) = Secondary"
proof (induction budget arbitrary: p n last_err j)
  case 0
  then show ?case by simp
next
  case (Suc budget)
  from Suc.prems(3) obtain b where b: "budget = Suc b" by (cases budget) auto
  show ?case
  proof (cases "client p n pl")
    case (Inr tx)
    with Suc.prems show ?thesis by (simp add: is_unavailable_def)
  next
    case (Inl e)
    show ?thesis
    proof (cases e)
      case (Permanent m)
      with Inl Suc.prems show ?thesis by (simp add: is_unavailable_def)
    next
      case (Transient m)
      let ?rest = "snd (run_attempts client pl p budget (Suc n) (Some (Transient m)))"
      have log: "snd (run_attempts client pl p (Suc budget) n last_err)
                   = \<lparr>attempt_path = p, attempt_number = n, attempt_result = client p n pl\<rparr> # ?rest"
        using Inl Transient by (simp add: Let_def)
      from Suc.prems(2) log Inl Transient obtain j' where j: "j = Suc j'"
        by (cases j) (auto simp: is_unavailable_def)
      from Suc.prems log j have "j' < length ?rest"
        "is_unavailable (attempt_result (?rest ! j'))" "Suc j' < budget" by simp_all
      from Suc.IH [OF this] log j show ?thesis by simp
    next
      case (ServiceUnavailable m)
      let ?rest = "snd (run_attempts client pl Secondary budget (Suc n) (Some (ServiceUnavailable m)))"
      have log: "snd (run_attempts client pl p (Suc budget) n last_err)
                   = \<lparr>attempt_path = p, attempt_number = n, attempt_result = client p n pl\<rparr> # ?rest"
        using Inl ServiceUnavailable by (simp add: Let_def)
      show ?thesis
      proof (cases j)
        case 0
        from run_attempts_first [of client pl Secondary b "Suc n" "Some (ServiceUnavailable m)"] b
        have "?rest \<noteq> []" "attempt_path (hd ?rest) = Secondary" by simp_all
        with log 0 show ?thesis by (cases ?rest) simp_all
      next
        case (Suc j')
        from Suc.prems log Suc have "j' < length ?rest"
          "is_unavailable (attempt_result (?rest ! j'))" "Suc j' < budget" by simp_all
        from Suc.IH [OF this] log Suc show ?thesis by simp
      qed
    qed
  qed
qed

lemma run_attempts_success_last:
  "j < length (snd (run_attempts client pl p budget n last_err)) \<Longrightarrow>
   attempt_result (snd (run_attempts client pl p budget n last_err) ! j) = Inr tx \<Longrightarrow>
   Suc j = length (snd (run_attempts client pl p budget n last_err))"
proof (induction budget arbitrary: p n last_err j)
  case 0
  then show ?case by simp
next
  case (Suc budget)
  show ?case
  proof (cases "client p n pl")
    case (Inr tx)
    with Suc.prems show ?thesis by simp
  next
    case (Inl e)
    show ?thesis
    proof (cases j)
      case 0
      with Inl Suc.prems show ?thesis by (cases e) (auto simp: Let_def)
    next
      case (Suc j')
      with Inl Suc.prems Suc.IH [of j' _ "Suc n"] show ?thesis
        by (cases e) (auto simp: Let_def)
    qed
  qed
qed


lemma execute_failover_scenario:
  assumes "client Primary 1 pl = Inl (ServiceUnavailable m)" "client Secondary 2 pl = Inr tx"
    "2 \<le> mx"
  shows "execute mx client pl =
     (ConfirmedWith tx,
      [\<lparr>attempt_path = Primary, attempt_number = 1,
         attempt_result = Inl (ServiceUnavailable m)\<rparr>,
       \<lparr>attempt_path = Secondary, attempt_number = 2, attempt_result = Inr tx\<rparr>])"
proof -
  from assms(3) obtain b where "mx = Suc (Suc b)"
    by (metis Suc_le_D numeral_2_eq_2 Suc_le_mono)
  with assms(1,2) show ?thesis
    by (simp add: execute_def Let_def numeral_2_eq_2)
qed

lemma dispatch_fresh:
  assumes "ledger s (identity_of a) = None"
  shows "ledger (dispatch cfg a r s) (identity_of a) =
     Some (case fst (execute (max_attempts cfg) (client_of cfg r) (payload a)) of
             ConfirmedWith tx \<Rightarrow>
               \<lparr>status = Confirmed, destination_tx = Some tx,
                attempt_count = length (snd (execute (max_attempts cfg) (client_of cfg r) (payload a))),
                last_error = None\<rparr>
           | FailedPermanentWith e \<Rightarrow>
               \<lparr>status = FailedPermanent, destination_tx = None,
                attempt_count = length (snd (execute (max_attempts cfg) (client_of cfg r) (payload a))),
                last_error = e\<rparr>)"
    and "submissions (dispatch cfg a r s) =
     submissions s @ map (Pair (identity_of a))
       (snd (execute (max_attempts cfg) (client_of cfg r) (payload a)))"
  using assms
  by (auto simp: dispatch_def Let_def tryBegin_def commit_def split: outcome.splits)

lemma isRelevant_Some:
  "isRelevant a rt = Some r \<Longrightarrow>
   r \<in> set rt \<and> route_origin_chain r = origin_chain a \<and> route_origin_emitter r = origin_emitter a"
  by (auto simp: isRelevant_def find_Some_iff)

lemma isRelevant_None:
  "isRelevant a rt = None \<longleftrightarrow>
   \<not> (\<exists>r \<in> set rt. route_origin_chain r = origin_chain a
                   \<and> route_origin_emitter r = origin_emitter a)"
  by (auto simp: isRelevant_def find_None_iff)

lemma isRelevant_DeployVault:
  "isRelevant a DeployVault_routes \<noteq> None \<longleftrightarrow>
   origin_chain a = 52 \<and> origin_emitter a = emitterAddress"
  by (auto simp: isRelevant_def DeployVault_routes_def registerEmitter_def emitterChainId_def)

lemma scenario_confirmed:
  "process (scenario_config succeeding_client) scenario_attestation empty_state =
     \<lparr>ledger = [identity_of scenario_attestation \<mapsto>
                  \<lparr>status = Confirmed, destination_tx = Some ''0xab01'', attempt_count = 1,
                   last_error = None\<rparr>],
      submissions = [(identity_of scenario_attestation,
                      \<lparr>attempt_path = Primary, attempt_number = 1,
                       attempt_result = Inr ''0xab01''\<rparr>)],
      diagnostics = []\<rparr>"
  by (simp add: process_def isRelevant_def scenario_config_def scenario_attestation_def
        DeployVault_routes_def registerEmitter_def emitterChainId_def empty_state_def
        dispatch_def tryBegin_def execute_def commit_def succeeding_client_def
        numeral_3_eq_3 Let_def)

text \<open>
  Claim C1. \<open>tryBegin\<close> returns false, and leaves the ledger as it is, for an identity
  whose record is in-flight or confirmed. Once the record of an identity is confirmed,
  a dispatch of an attestation with that identity only writes a diagnostic, and in
  every run of the relayer from there (any deliveries, the same attestation again
  included, and any restarts) the record stays as it is and no submission call is made
  for that identity.
\<close>

theorem confirmed_identity_never_resubmitted:
  "(l i = Some r \<and> (status r = InFlight \<or> status r = Confirmed) \<longrightarrow>
      tryBegin eligible i l = (False, l))
   \<and> (ledger s i = Some r \<and> status r = Confirmed \<longrightarrow>
      (identity_of a = i \<longrightarrow>
         dispatch cfg a rt s = s\<lparr>diagnostics := diagnostics s @ [AlreadyProcessing i]\<rparr>)
      \<and> ledger (relayer_run cfg es s) i = Some r
      \<and> submissions_for i (relayer_run cfg es s) = submissions_for i s)"
  using tryBegin_refuses [of l i r eligible] dispatch_confirmed_same [of s a r cfg rt]
    run_keeps_confirmed [of s i r cfg es]
  by blast

theorem confirmed_identity_never_resubmitted_witness:
  "ledger (process (scenario_config succeeding_client) scenario_attestation empty_state)
       (identity_of scenario_attestation)
     = Some \<lparr>status = Confirmed, destination_tx = Some ''0xab01'', attempt_count = 1,
             last_error = None\<rparr>
   \<and> length (submissions_for (identity_of scenario_attestation)
        (process (scenario_config succeeding_client) scenario_attestation empty_state)) = 1
   \<and> submissions_for (identity_of scenario_attestation)
        (relayer_run (scenario_config succeeding_client)
           [Deliver scenario_attestation, Restart, Deliver scenario_attestation]
           (process (scenario_config succeeding_client) scenario_attestation empty_state))
       = submissions_for (identity_of scenario_attestation)
           (process (scenario_config succeeding_client) scenario_attestation empty_state)
   \<and> fst (tryBegin (\<lambda>r. True) (identity_of scenario_attestation)
        (ledger (process (scenario_config succeeding_client) scenario_attestation empty_state)))
       = False"
proof -
  let ?i = "identity_of scenario_attestation"
  let ?s = "process (scenario_config succeeding_client) scenario_attestation empty_state"
  let ?r = "\<lparr>status = Confirmed, destination_tx = Some ''0xab01'', attempt_count = 1,
             last_error = None\<rparr>"
  have rec: "ledger ?s ?i = Some ?r"
    by (simp add: scenario_confirmed)
  have st: "status ?r = Confirmed" by simp
  have one: "length (submissions_for ?i ?s) = 1"
    by (simp add: scenario_confirmed submissions_for_def)
  from confirmed_identity_never_resubmitted
    [of "ledger ?s" ?i ?r "\<lambda>r. True" ?s scenario_attestation "scenario_config succeeding_client"
        _ "[Deliver scenario_attestation, Restart, Deliver scenario_attestation]"]
    rec st
  have "tryBegin (\<lambda>r. True) ?i (ledger ?s) = (False, ledger ?s)"
    and "submissions_for ?i
           (relayer_run (scenario_config succeeding_client)
              [Deliver scenario_attestation, Restart, Deliver scenario_attestation] ?s)
         = submissions_for ?i ?s"
    by blast+
  with rec one show ?thesis by simp
qed

text \<open>
  Claim C4. When the client answers every attempt with a transient error,
  \<open>execute\<close> makes exactly the configured maximum number of attempts, numbered from 1
  to the maximum and all on the primary path, and its outcome is failed-permanent; a
  dispatch of a fresh attestation then records failed-permanent with that attempt count
  and has made that many submission calls.
\<close>

theorem transient_client_exhausts_budget:
  "(\<forall>n. \<exists>m. client Primary n pl = Inl (Transient m)) \<longrightarrow>
     length (snd (execute mx client pl)) = mx
     \<and> (\<exists>e. fst (execute mx client pl) = FailedPermanentWith e)
     \<and> map attempt_number (snd (execute mx client pl)) = [1..<1 + mx]
     \<and> (\<forall>x \<in> set (snd (execute mx client pl)). attempt_path x = Primary)
     \<and> (ledger s (identity_of a) = None \<and> client_of cfg r = client \<and> payload a = pl
          \<and> max_attempts cfg = mx \<longrightarrow>
        (\<exists>rec. ledger (dispatch cfg a r s) (identity_of a) = Some rec
           \<and> status rec = FailedPermanent \<and> attempt_count rec = mx)
        \<and> length (submissions_for (identity_of a) (dispatch cfg a r s))
            = length (submissions_for (identity_of a) s) + mx)"
proof (intro impI)
  assume tr: "\<forall>n. \<exists>m. client Primary n pl = Inl (Transient m)"
  from run_attempts_all_transient [of client Primary pl mx 1 None] tr
  have len: "length (snd (execute mx client pl)) = mx"
    and fail: "\<exists>e. fst (execute mx client pl) = FailedPermanentWith e"
    and nums: "map attempt_number (snd (execute mx client pl)) = [1..<1 + mx]"
    and prim: "\<forall>x \<in> set (snd (execute mx client pl)). attempt_path x = Primary"
    by (simp_all add: execute_def)
  have disp: "(\<exists>rec. ledger (dispatch cfg a r s) (identity_of a) = Some rec
           \<and> status rec = FailedPermanent \<and> attempt_count rec = mx)
        \<and> length (submissions_for (identity_of a) (dispatch cfg a r s))
            = length (submissions_for (identity_of a) s) + mx"
    if fresh: "ledger s (identity_of a) = None" and cl: "client_of cfg r = client"
      and pl: "payload a = pl" and mx: "max_attempts cfg = mx"
  proof -
    from fail obtain e where e: "fst (execute mx client pl) = FailedPermanentWith e" by blast
    from dispatch_fresh [OF fresh, of cfg r] cl pl mx e len
    have "ledger (dispatch cfg a r s) (identity_of a)
            = Some \<lparr>status = FailedPermanent, destination_tx = None, attempt_count = mx,
                    last_error = e\<rparr>"
      and "submissions (dispatch cfg a r s)
            = submissions s @ map (Pair (identity_of a)) (snd (execute mx client pl))"
      by simp_all
    with len show ?thesis by (simp add: submissions_for_def)
  qed
  from len fail nums prim disp
  show "length (snd (execute mx client pl)) = mx
     \<and> (\<exists>e. fst (execute mx client pl) = FailedPermanentWith e)
     \<and> map attempt_number (snd (execute mx client pl)) = [1..<1 + mx]
     \<and> (\<forall>x \<in> set (snd (execute mx client pl)). attempt_path x = Primary)
     \<and> (ledger s (identity_of a) = None \<and> client_of cfg r = client \<and> payload a = pl
          \<and> max_attempts cfg = mx \<longrightarrow>
        (\<exists>rec. ledger (dispatch cfg a r s) (identity_of a) = Some rec
           \<and> status rec = FailedPermanent \<and> attempt_count rec = mx)
        \<and> length (submissions_for (identity_of a) (dispatch cfg a r s))
            = length (submissions_for (identity_of a) s) + mx)"
    by blast
qed

theorem transient_client_exhausts_budget_witness:
  "(\<forall>n. \<exists>m. transient_client Primary n [0xde, 0xad] = Inl (Transient m))
   \<and> length (snd (execute 3 transient_client [0xde, 0xad])) = 3
   \<and> fst (execute 3 transient_client [0xde, 0xad])
       = FailedPermanentWith (Some (Transient ''timeout''))
   \<and> map attempt_number (snd (execute 3 transient_client [0xde, 0xad])) = [1, 2, 3]"
proof -
  have tr: "\<forall>n. \<exists>m. transient_client Primary n [0xde, 0xad] = Inl (Transient m)"
    by (simp add: transient_client_def)
  have out: "fst (execute 3 transient_client [0xde, 0xad])
       = FailedPermanentWith (Some (Transient ''timeout''))"
    by (simp add: execute_def transient_client_def numeral_3_eq_3 Let_def)
  from transient_client_exhausts_budget [of transient_client "[0xde, 0xad]" 3] tr
  have "length (snd (execute 3 transient_client [0xde, 0xad])) = 3"
    and "map attempt_number (snd (execute 3 transient_client [0xde, 0xad])) = [1..<1 + 3]"
    by blast+
  moreover have "[1..<1 + 3] = [1, 2, Suc 2]"
    by (simp add: upt_rec)
  ultimately show ?thesis using tr out by simp
qed

text \<open>
  Claim C3. The first attempt of \<open>execute\<close> is on the primary path, attempt \<open>j + 1\<close>
  is entry \<open>j\<close> of the log, its result is what the client answered on the path of
  that entry, and no more attempts are made than the budget allows. Whenever an
  attempt, the first or a later one, is answered with Service-unavailable and the
  budget is not used up, the next attempt is made and it is made on the secondary
  path; if the secondary path answers that attempt with success,
  \<open>execute\<close> stops there and reports confirmed, and a dispatch of a fresh attestation
  leaves its record confirmed with the transaction identifier of the secondary path and
  the number of attempts made. Every attempt made after a Service-unavailable answer is
  on the secondary path: the primary path is not tried again. The outcome is confirmed
  exactly when the last attempt made succeeded. In particular, when the primary path
  answers the first attempt with Service-unavailable and the secondary path answers the
  second with success, and the budget allows a second attempt, \<open>execute\<close> makes exactly
  these two attempts and reports confirmed.
\<close>

theorem unavailable_primary_fails_over:
  "(0 < mx \<longrightarrow> snd (execute mx client pl) \<noteq> []
        \<and> attempt_path (snd (execute mx client pl) ! 0) = Primary)
   \<and> length (snd (execute mx client pl)) \<le> mx
   \<and> (\<forall>j < length (snd (execute mx client pl)).
        attempt_number (snd (execute mx client pl) ! j) = j + 1
        \<and> attempt_result (snd (execute mx client pl) ! j)
            = client (attempt_path (snd (execute mx client pl) ! j)) (j + 1) pl)
   \<and> (\<forall>j. j < length (snd (execute mx client pl))
        \<and> is_unavailable (attempt_result (snd (execute mx client pl) ! j))
        \<and> j + 1 < mx \<longrightarrow>
      j + 1 < length (snd (execute mx client pl))
      \<and> attempt_path (snd (execute mx client pl) ! (j + 1)) = Secondary
      \<and> attempt_number (snd (execute mx client pl) ! (j + 1)) = j + 2
      \<and> (\<forall>tx''. client Secondary (j + 2) pl = Inr tx'' \<longrightarrow>
           fst (execute mx client pl) = ConfirmedWith tx''
           \<and> length (snd (execute mx client pl)) = j + 2
           \<and> (ledger s (identity_of a) = None \<and> client_of cfg r = client \<and> payload a = pl
                \<and> max_attempts cfg = mx \<longrightarrow>
              ledger (dispatch cfg a r s) (identity_of a) =
                Some \<lparr>status = Confirmed, destination_tx = Some tx'', attempt_count = j + 2,
                      last_error = None\<rparr>)))
   \<and> (\<forall>j k. j < k \<and> k < length (snd (execute mx client pl))
        \<and> is_unavailable (attempt_result (snd (execute mx client pl) ! j)) \<longrightarrow>
      attempt_path (snd (execute mx client pl) ! k) = Secondary)
   \<and> (fst (execute mx client pl) = ConfirmedWith tx' \<longleftrightarrow>
        snd (execute mx client pl) \<noteq> []
        \<and> attempt_result (last (snd (execute mx client pl))) = Inr tx')
   \<and> (client Primary 1 pl = Inl (ServiceUnavailable m) \<and> client Secondary 2 pl = Inr tx
        \<and> 2 \<le> mx \<longrightarrow>
      execute mx client pl =
        (ConfirmedWith tx,
         [\<lparr>attempt_path = Primary, attempt_number = 1,
            attempt_result = Inl (ServiceUnavailable m)\<rparr>,
          \<lparr>attempt_path = Secondary, attempt_number = 2, attempt_result = Inr tx\<rparr>])
      \<and> (ledger s (identity_of a) = None \<and> client_of cfg r = client \<and> payload a = pl
           \<and> max_attempts cfg = mx \<longrightarrow>
         ledger (dispatch cfg a r s) (identity_of a) =
           Some \<lparr>status = Confirmed, destination_tx = Some tx, attempt_count = 2,
                 last_error = None\<rparr>))"
proof -
  let ?log = "snd (execute mx client pl)"
  have first: "0 < mx \<longrightarrow> ?log \<noteq> [] \<and> attempt_path (?log ! 0) = Primary"
  proof
    assume "0 < mx"
    then obtain b where b: "mx = Suc b" by (cases mx) auto
    from run_attempts_first [of client pl Primary b 1 None] b
    have "?log \<noteq> []" "attempt_path (hd ?log) = Primary" by (simp_all add: execute_def)
    then show "?log \<noteq> [] \<and> attempt_path (?log ! 0) = Primary"
      by (simp add: hd_conv_nth)
  qed
  have bound: "length ?log \<le> mx"
    unfolding execute_def by (rule run_attempts_length)
  have entry: "\<forall>j < length ?log. attempt_number (?log ! j) = j + 1
        \<and> attempt_result (?log ! j) = client (attempt_path (?log ! j)) (j + 1) pl"
    unfolding execute_def
    using run_attempts_entry [of _ client pl Primary mx 1 None] by simp
  have switch: "j + 1 < length ?log
      \<and> attempt_path (?log ! (j + 1)) = Secondary
      \<and> attempt_number (?log ! (j + 1)) = j + 2
      \<and> (\<forall>tx''. client Secondary (j + 2) pl = Inr tx'' \<longrightarrow>
           fst (execute mx client pl) = ConfirmedWith tx''
           \<and> length ?log = j + 2
           \<and> (ledger s (identity_of a) = None \<and> client_of cfg r = client \<and> payload a = pl
                \<and> max_attempts cfg = mx \<longrightarrow>
              ledger (dispatch cfg a r s) (identity_of a) =
                Some \<lparr>status = Confirmed, destination_tx = Some tx'', attempt_count = j + 2,
                      last_error = None\<rparr>))"
    if h: "j < length ?log \<and> is_unavailable (attempt_result (?log ! j)) \<and> j + 1 < mx" for j
  proof -
    from h run_attempts_switch [of j client pl Primary mx 1 None]
    have nxt: "Suc j < length ?log" and sec: "attempt_path (?log ! Suc j) = Secondary"
      by (simp_all add: execute_def)
    from entry nxt have num: "attempt_number (?log ! Suc j) = j + 2"
      and res: "attempt_result (?log ! Suc j) = client (attempt_path (?log ! Suc j)) (j + 2) pl"
      by simp_all
    have conf: "fst (execute mx client pl) = ConfirmedWith tx''
           \<and> length ?log = j + 2
           \<and> (ledger s (identity_of a) = None \<and> client_of cfg r = client \<and> payload a = pl
                \<and> max_attempts cfg = mx \<longrightarrow>
              ledger (dispatch cfg a r s) (identity_of a) =
                Some \<lparr>status = Confirmed, destination_tx = Some tx'', attempt_count = j + 2,
                      last_error = None\<rparr>)"
      if ok: "client Secondary (j + 2) pl = Inr tx''" for tx''
    proof -
      from res sec ok have r: "attempt_result (?log ! Suc j) = Inr tx''" by simp
      from run_attempts_success_last [of "Suc j" client pl Primary mx 1 None tx''] nxt r
      have len: "length ?log = j + 2" by (simp add: execute_def)
      then have ne: "?log \<noteq> []" by auto
      from len have "last ?log = ?log ! Suc j" using ne by (simp add: last_conv_nth)
      with r ne run_attempts_confirmed_iff [of client pl Primary mx 1 None tx'']
      have out: "fst (execute mx client pl) = ConfirmedWith tx''" by (simp add: execute_def)
      have "ledger (dispatch cfg a r s) (identity_of a) =
                Some \<lparr>status = Confirmed, destination_tx = Some tx'', attempt_count = j + 2,
                      last_error = None\<rparr>"
        if fr: "ledger s (identity_of a) = None \<and> client_of cfg r = client \<and> payload a = pl
                \<and> max_attempts cfg = mx"
      proof -
        from fr have fresh: "ledger s (identity_of a) = None" by simp
        from dispatch_fresh(1) [OF fresh, of cfg r] fr out len show ?thesis by simp
      qed
      with out len show ?thesis by blast
    qed
    from nxt sec num conf show ?thesis by simp
  qed
  have later: "\<forall>j k. j < k \<and> k < length ?log \<and> is_unavailable (attempt_result (?log ! j)) \<longrightarrow>
      attempt_path (?log ! k) = Secondary"
    unfolding execute_def using run_attempts_failover [of _ _ client pl Primary mx 1 None]
    by blast
  have iff: "fst (execute mx client pl) = ConfirmedWith tx' \<longleftrightarrow>
        ?log \<noteq> [] \<and> attempt_result (last ?log) = Inr tx'"
    unfolding execute_def by (rule run_attempts_confirmed_iff)
  have scen: "client Primary 1 pl = Inl (ServiceUnavailable m) \<and> client Secondary 2 pl = Inr tx
        \<and> 2 \<le> mx \<longrightarrow>
      execute mx client pl =
        (ConfirmedWith tx,
         [\<lparr>attempt_path = Primary, attempt_number = 1,
            attempt_result = Inl (ServiceUnavailable m)\<rparr>,
          \<lparr>attempt_path = Secondary, attempt_number = 2, attempt_result = Inr tx\<rparr>])
      \<and> (ledger s (identity_of a) = None \<and> client_of cfg r = client \<and> payload a = pl
           \<and> max_attempts cfg = mx \<longrightarrow>
         ledger (dispatch cfg a r s) (identity_of a) =
           Some \<lparr>status = Confirmed, destination_tx = Some tx, attempt_count = 2,
                 last_error = None\<rparr>)"
  proof (intro impI conjI)
    assume sc: "client Primary 1 pl = Inl (ServiceUnavailable m) \<and> client Secondary 2 pl = Inr tx
        \<and> 2 \<le> mx"
    then show ex: "execute mx client pl =
        (ConfirmedWith tx,
         [\<lparr>attempt_path = Primary, attempt_number = 1,
            attempt_result = Inl (ServiceUnavailable m)\<rparr>,
          \<lparr>attempt_path = Secondary, attempt_number = 2, attempt_result = Inr tx\<rparr>])"
      by (simp add: execute_failover_scenario)
    assume fr: "ledger s (identity_of a) = None \<and> client_of cfg r = client \<and> payload a = pl
           \<and> max_attempts cfg = mx"
    then have fresh: "ledger s (identity_of a) = None" by simp
    from dispatch_fresh(1) [OF fresh, of cfg r] fr ex
    show "ledger (dispatch cfg a r s) (identity_of a) =
           Some \<lparr>status = Confirmed, destination_tx = Some tx, attempt_count = 2,
                 last_error = None\<rparr>"
      by simp
  qed
  from switch have switch': "\<forall>j. j < length ?log
        \<and> is_unavailable (attempt_result (?log ! j)) \<and> j + 1 < mx \<longrightarrow>
      j + 1 < length ?log
      \<and> attempt_path (?log ! (j + 1)) = Secondary
      \<and> attempt_number (?log ! (j + 1)) = j + 2
      \<and> (\<forall>tx''. client Secondary (j + 2) pl = Inr tx'' \<longrightarrow>
           fst (execute mx client pl) = ConfirmedWith tx''
           \<and> length ?log = j + 2
           \<and> (ledger s (identity_of a) = None \<and> client_of cfg r = client \<and> payload a = pl
                \<and> max_attempts cfg = mx \<longrightarrow>
              ledger (dispatch cfg a r s) (identity_of a) =
                Some \<lparr>status = Confirmed, destination_tx = Some tx'', attempt_count = j + 2,
                      last_error = None\<rparr>))"
    by blast
  show ?thesis
    by (intro conjI first bound entry switch' later iff scen)
qed


theorem unavailable_primary_fails_over_witness:
  "(0::nat) < 3
   \<and> (1::nat) < length (snd (execute 3 late_failover_client [0xde, 0xad]))
   \<and> is_unavailable (attempt_result (snd (execute 3 late_failover_client [0xde, 0xad]) ! 1))
   \<and> (1::nat) + 1 < 3
   \<and> late_failover_client Secondary (1 + 2) [0xde, 0xad] = Inr ''0xab02''
   \<and> attempt_path (snd (execute 3 late_failover_client [0xde, 0xad]) ! 0) = Primary
   \<and> attempt_path (snd (execute 3 late_failover_client [0xde, 0xad]) ! (1 + 1)) = Secondary
   \<and> attempt_number (snd (execute 3 late_failover_client [0xde, 0xad]) ! (1 + 1)) = 1 + 2
   \<and> fst (execute 3 late_failover_client [0xde, 0xad]) = ConfirmedWith ''0xab02''
   \<and> length (snd (execute 3 late_failover_client [0xde, 0xad])) = 1 + 2
   \<and> ledger (dispatch (scenario_config late_failover_client) scenario_attestation
               (hd DeployVault_routes) empty_state) (identity_of scenario_attestation)
       = Some \<lparr>status = Confirmed, destination_tx = Some ''0xab02'', attempt_count = 1 + 2,
               last_error = None\<rparr>
   \<and> failover_client Primary 1 [0xde, 0xad]
       = Inl (ServiceUnavailable ''verification service failed'')
   \<and> failover_client Secondary 2 [0xde, 0xad] = Inr ''0xab01''
   \<and> (2::nat) \<le> 3
   \<and> execute 3 failover_client [0xde, 0xad] =
        (ConfirmedWith ''0xab01'',
         [\<lparr>attempt_path = Primary, attempt_number = 1,
            attempt_result = Inl (ServiceUnavailable ''verification service failed'')\<rparr>,
          \<lparr>attempt_path = Secondary, attempt_number = 2, attempt_result = Inr ''0xab01''\<rparr>])
   \<and> ledger (dispatch (scenario_config failover_client) scenario_attestation
               (hd DeployVault_routes) empty_state) (identity_of scenario_attestation)
       = Some \<lparr>status = Confirmed, destination_tx = Some ''0xab01'', attempt_count = 2,
               last_error = None\<rparr>"
proof -
  let ?late = "snd (execute 3 late_failover_client [0xde, 0xad])"
  have late_log: "?late =
      [\<lparr>attempt_path = Primary, attempt_number = 1,
         attempt_result = Inl (Transient ''timeout'')\<rparr>,
       \<lparr>attempt_path = Primary, attempt_number = 2,
         attempt_result = Inl (ServiceUnavailable ''verification service failed'')\<rparr>,
       \<lparr>attempt_path = Secondary, attempt_number = 3, attempt_result = Inr ''0xab02''\<rparr>]"
    by (simp add: execute_def late_failover_client_def numeral_3_eq_3 Let_def)
  have h0: "(0::nat) < 3" and h3: "(1::nat) + 1 < 3" by simp_all
  have h1: "(1::nat) < length ?late" unfolding late_log by simp
  have h2: "is_unavailable (attempt_result (?late ! 1))"
    unfolding late_log by (simp add: is_unavailable_def)
  have h4: "late_failover_client Secondary (1 + 2) [0xde, 0xad] = Inr ''0xab02''"
    by (simp add: late_failover_client_def)
  have a: "failover_client Primary 1 [0xde, 0xad]
       = Inl (ServiceUnavailable ''verification service failed'')"
    and b: "failover_client Secondary 2 [0xde, 0xad] = Inr ''0xab01''"
    and c: "(2::nat) \<le> 3"
    by (simp_all add: failover_client_def)
  have d: "ledger empty_state (identity_of scenario_attestation) = None"
    and e: "client_of (scenario_config failover_client) (hd DeployVault_routes) = failover_client"
    and e': "client_of (scenario_config late_failover_client) (hd DeployVault_routes)
               = late_failover_client"
    and f: "payload scenario_attestation = [0xde, 0xad]"
    and g: "max_attempts (scenario_config failover_client) = 3"
    and g': "max_attempts (scenario_config late_failover_client) = 3"
    by (simp_all add: empty_state_def scenario_config_def scenario_attestation_def)
  note late = unavailable_primary_fails_over
    [of 3 late_failover_client "[0xde, 0xad]" empty_state scenario_attestation
        "scenario_config late_failover_client" "hd DeployVault_routes"]
  from late h0 have l0: "attempt_path (?late ! 0) = Primary" by blast
  from late have sw: "(1::nat) < length ?late \<and> is_unavailable (attempt_result (?late ! 1))
        \<and> (1::nat) + 1 < 3 \<longrightarrow>
      1 + 1 < length ?late
      \<and> attempt_path (?late ! (1 + 1)) = Secondary
      \<and> attempt_number (?late ! (1 + 1)) = 1 + 2
      \<and> (\<forall>tx''. late_failover_client Secondary (1 + 2) [0xde, 0xad] = Inr tx'' \<longrightarrow>
           fst (execute 3 late_failover_client [0xde, 0xad]) = ConfirmedWith tx''
           \<and> length ?late = 1 + 2
           \<and> (ledger empty_state (identity_of scenario_attestation) = None
                \<and> client_of (scenario_config late_failover_client) (hd DeployVault_routes)
                    = late_failover_client
                \<and> payload scenario_attestation = [0xde, 0xad]
                \<and> max_attempts (scenario_config late_failover_client) = 3 \<longrightarrow>
              ledger (dispatch (scenario_config late_failover_client) scenario_attestation
                        (hd DeployVault_routes) empty_state) (identity_of scenario_attestation) =
                Some \<lparr>status = Confirmed, destination_tx = Some tx'', attempt_count = 1 + 2,
                      last_error = None\<rparr>))"
    by blast
  with h1 h2 h3 h4 d e' f g'
  have l1: "attempt_path (?late ! (1 + 1)) = Secondary"
    and l2: "attempt_number (?late ! (1 + 1)) = 1 + 2"
    and l3: "fst (execute 3 late_failover_client [0xde, 0xad]) = ConfirmedWith ''0xab02''"
    and l4: "length ?late = 1 + 2"
    and l5: "ledger (dispatch (scenario_config late_failover_client) scenario_attestation
                        (hd DeployVault_routes) empty_state) (identity_of scenario_attestation) =
                Some \<lparr>status = Confirmed, destination_tx = Some ''0xab02'', attempt_count = 1 + 2,
                      last_error = None\<rparr>"
    by blast+
  from unavailable_primary_fails_over
    [of 3 failover_client "[0xde, 0xad]" empty_state scenario_attestation
        "scenario_config failover_client" "hd DeployVault_routes" _
        "''verification service failed''" "''0xab01''"]
    a b c d e f g
  have old: "execute 3 failover_client [0xde, 0xad] =
        (ConfirmedWith ''0xab01'',
         [\<lparr>attempt_path = Primary, attempt_number = 1,
            attempt_result = Inl (ServiceUnavailable ''verification service failed'')\<rparr>,
          \<lparr>attempt_path = Secondary, attempt_number = 2, attempt_result = Inr ''0xab01''\<rparr>])
   \<and> ledger (dispatch (scenario_config failover_client) scenario_attestation
               (hd DeployVault_routes) empty_state) (identity_of scenario_attestation)
       = Some \<lparr>status = Confirmed, destination_tx = Some ''0xab01'', attempt_count = 2,
               last_error = None\<rparr>"
    by blast
  from h0 h1 h2 h3 h4 l0 l1 l2 l3 l4 l5 a b c old show ?thesis by blast
qed

text \<open>
  Claim C5. \<open>isRelevant\<close> returns a route only when that route is in the table and
  both its origin chain and its origin emitter equal the attestation's, and returns
  none exactly when the table has no such route. With the table of the deployment, an
  attestation is relevant exactly when its origin chain is 52 and its emitter is the
  registered address; an attestation from origin chain 99 has no route. An attestation
  without a route is dropped: the ledger and the submission calls are as before and
  only a diagnostic is written; one with a route goes to the dispatcher.
\<close>

theorem relevance_is_exact_match:
  "(isRelevant a rt = Some r \<longrightarrow>
      r \<in> set rt \<and> route_origin_chain r = origin_chain a
      \<and> route_origin_emitter r = origin_emitter a)
   \<and> (isRelevant a rt = None \<longleftrightarrow>
        \<not> (\<exists>r \<in> set rt. route_origin_chain r = origin_chain a
                        \<and> route_origin_emitter r = origin_emitter a))
   \<and> (isRelevant a DeployVault_routes \<noteq> None \<longleftrightarrow>
        origin_chain a = 52 \<and> origin_emitter a = emitterAddress)
   \<and> (origin_chain a = 99 \<longrightarrow> isRelevant a DeployVault_routes = None)
   \<and> (isRelevant a (routes cfg) = None \<longrightarrow>
        ledger (process cfg a s) = ledger s
        \<and> submissions (process cfg a s) = submissions s
        \<and> diagnostics (process cfg a s) = diagnostics s @ [NoRoute (identity_of a)])
   \<and> (isRelevant a (routes cfg) = Some r' \<longrightarrow> process cfg a s = dispatch cfg a r' s)"
proof -
  have "origin_chain a = 99 \<longrightarrow> isRelevant a DeployVault_routes = None"
    using isRelevant_DeployVault [of a] by auto
  moreover have "isRelevant a (routes cfg) = None \<longrightarrow>
        ledger (process cfg a s) = ledger s
        \<and> submissions (process cfg a s) = submissions s
        \<and> diagnostics (process cfg a s) = diagnostics s @ [NoRoute (identity_of a)]"
    by (simp add: process_def)
  moreover have "isRelevant a (routes cfg) = Some r' \<longrightarrow> process cfg a s = dispatch cfg a r' s"
    by (simp add: process_def)
  ultimately show ?thesis
    using isRelevant_Some [of a rt r] isRelevant_None [of a rt] isRelevant_DeployVault [of a]
    by blast
qed

theorem relevance_is_exact_match_witness:
  "isRelevant scenario_attestation DeployVault_routes =
      Some \<lparr>route_origin_chain = 52, route_origin_emitter = emitterAddress,
            destination_chain = 10003, destination_context = ''Vault''\<rparr>
   \<and> origin_chain unconfigured_attestation = 99
   \<and> isRelevant unconfigured_attestation DeployVault_routes = None
   \<and> isRelevant (scenario_attestation\<lparr>origin_emitter := take 31 emitterAddress\<rparr>)
        DeployVault_routes = None
   \<and> ledger (process (scenario_config succeeding_client) unconfigured_attestation empty_state)
       = Map.empty
   \<and> submissions (process (scenario_config succeeding_client) unconfigured_attestation
        empty_state) = []"
proof -
  have rel: "isRelevant scenario_attestation DeployVault_routes =
      Some \<lparr>route_origin_chain = 52, route_origin_emitter = emitterAddress,
            destination_chain = 10003, destination_context = ''Vault''\<rparr>"
    by (simp add: isRelevant_def scenario_attestation_def DeployVault_routes_def
          registerEmitter_def emitterChainId_def chainId_def)
  have ch: "origin_chain unconfigured_attestation = 99"
    by (simp add: unconfigured_attestation_def)
  have pre: "origin_emitter (scenario_attestation\<lparr>origin_emitter := take 31 emitterAddress\<rparr>)
               \<noteq> emitterAddress"
    by (simp add: emitterAddress_def)
  have rt: "routes (scenario_config succeeding_client) = DeployVault_routes"
    by (simp add: scenario_config_def)
  from relevance_is_exact_match [of unconfigured_attestation DeployVault_routes _
      "scenario_config succeeding_client" empty_state] ch rt
  have none: "isRelevant unconfigured_attestation DeployVault_routes = None"
    and led: "ledger (process (scenario_config succeeding_client) unconfigured_attestation
                empty_state) = ledger empty_state"
    and sub: "submissions (process (scenario_config succeeding_client) unconfigured_attestation
                empty_state) = submissions empty_state"
    by simp_all
  from relevance_is_exact_match
    [of "scenario_attestation\<lparr>origin_emitter := take 31 emitterAddress\<rparr>" DeployVault_routes]
    pre
  have prefix: "isRelevant (scenario_attestation\<lparr>origin_emitter := take 31 emitterAddress\<rparr>)
        DeployVault_routes = None"
    by blast
  from rel ch none prefix led sub show ?thesis
    by (simp add: empty_state_def)
qed

end
